theory Spec2Isabelle
  imports Main "HOL-Library.AList" "HOL-Library.Sublist" "HOL-Library.Log_Nat"
begin

section \<open>Strings and numbers of the host language\<close>

text \<open>
  The source is TypeScript. Its strings are modelled as \<open>string\<close>, the port numbers
  and counts it prints as \<open>nat\<close> and \<open>int\<close> (the port values of a preset are
  integers). The amounts of the genesis ledger, on which the source computes, have a
  section of their own.
\<close>

definition newline :: string where
  "newline = [CHR 0x0A]"

text \<open>A decimal digit; only applied to numbers below ten.\<close>

definition digit :: "nat \<Rightarrow> char" where
  "digit n = ''0123456789'' ! n"

text \<open>The decimal text a template literal gives for an integer number.\<close>

function showNat :: "nat \<Rightarrow> string" where
  "showNat n = (if n < 10 then [digit n] else showNat (n div 10) @ [digit (n mod 10)])"
  by pat_completeness auto
termination
  by (relation "measure id") auto

declare showNat.simps [simp del]

definition showInt :: "int \<Rightarrow> string" where
  "showInt i = (if i < 0 then ''-'' @ showNat (nat (- i)) else showNat (nat i))"

text \<open>\<open>String.prototype.split\<close> with a one-character separator: never empty.\<close>

fun split :: "char \<Rightarrow> string \<Rightarrow> string list" where
  "split c [] = [[]]"
| "split c (x # xs) =
     (if x = c then [] # split c xs
      else (case split c xs of p # ps \<Rightarrow> (x # p) # ps | [] \<Rightarrow> [[x]]))"

text \<open>
  \<open>String.prototype.replace\<close> with a string pattern: the first occurrence only.
  (The replacements used by the source contain no \<open>$\<close> pattern.)
\<close>

fun replace :: "string \<Rightarrow> string \<Rightarrow> string \<Rightarrow> string" where
  "replace pat rep [] = (if pat = [] then rep else [])"
| "replace pat rep (x # xs) =
     (if prefix pat (x # xs) then rep @ drop (length pat) (x # xs)
      else x # replace pat rep xs)"

text \<open>\<open>Array.prototype.join\<close>.\<close>

fun joinWith :: "string \<Rightarrow> string list \<Rightarrow> string" where
  "joinWith sep [] = []"
| "joinWith sep [x] = x"
| "joinWith sep (x # y # ys) = x @ sep @ joinWith sep (y # ys)"

text \<open>
  \<open>path.join\<close> of two segments. Node's \<open>join\<close> also normalises \<open>.\<close> and \<open>..\<close>
  segments; no property below depends on the normal form of a path.
\<close>

definition joinPath :: "string \<Rightarrow> string \<Rightarrow> string" where
  "joinPath a b = a @ ''/'' @ b"

section \<open>Numbers of the amounts\<close>

text \<open>
  The supply of a mosaic and the amounts of distributions and balances are JavaScript
  numbers: IEEE 754 doubles. A preset gives them as integers, and the arithmetic of the
  source (sums, differences, one product, the floor of one quotient) takes integers,
  infinities and \<open>NaN\<close> to integers, infinities and \<open>NaN\<close>. A number is therefore one
  of these; \<open>Num i\<close> stands for the double whose value is the integer \<open>i\<close>, which
  supposes that \<open>i\<close> is the value of a double (\<open>isDouble\<close>, as every parsed
  number is). Each operation rounds its exact result to the nearest double, ties to the
  even significand, and overflows to an infinity. The two zeros are not told apart:
  nothing below divides by an amount.
\<close>

datatype number = Num int | PosInfinity | NegInfinity | NaN

text \<open>The integer nearest to \<open>N / D\<close> for \<open>D > 0\<close>, the even one at a tie.\<close>

definition rne :: "int \<Rightarrow> int \<Rightarrow> int" where
  "rne N D =
     (let n = N div D; r = N mod D
      in if 2 * r < D then n else if D < 2 * r then n + 1 else if even n then n else n + 1)"

text \<open>
  The integer rounded to 53 significant bits: below \<open>2^53\<close> every integer is a
  double; above, \<open>k\<close> low bits are rounded away.
\<close>

definition roundInt :: "int \<Rightarrow> int" where
  "roundInt x =
     (if \<bar>x\<bar> < 2 ^ 53 then x
      else (let k = nat (bitlen \<bar>x\<bar> - 53) in rne x (2 ^ k) * 2 ^ k))"

definition isDouble :: "int \<Rightarrow> bool" where
  "isDouble x = (roundInt x = x \<and> \<bar>x\<bar> < 2 ^ 1024)"

text \<open>The double of an exact integer result.\<close>

definition toNumber :: "int \<Rightarrow> number" where
  "toNumber x =
     (let y = roundInt x
      in if 2 ^ 1024 \<le> y then PosInfinity
         else if y \<le> - (2 ^ 1024) then NegInfinity
         else Num y)"

fun negD :: "number \<Rightarrow> number" where
  "negD (Num a) = Num (- a)"
| "negD PosInfinity = NegInfinity"
| "negD NegInfinity = PosInfinity"
| "negD NaN = NaN"

text \<open>\<open>a + b\<close>.\<close>

fun addD :: "number \<Rightarrow> number \<Rightarrow> number" where
  "addD NaN b = NaN"
| "addD a NaN = NaN"
| "addD (Num a) (Num b) = toNumber (a + b)"
| "addD PosInfinity NegInfinity = NaN"
| "addD NegInfinity PosInfinity = NaN"
| "addD PosInfinity b = PosInfinity"
| "addD NegInfinity b = NegInfinity"
| "addD (Num a) b = b"

text \<open>\<open>a - b\<close>.\<close>

definition subD :: "number \<Rightarrow> number \<Rightarrow> number" where
  "subD a b = addD a (negD b)"

text \<open>The sign of a finite factor times an infinity; zero times an infinity is \<open>NaN\<close>.\<close>

definition scaleInfinity :: "int \<Rightarrow> number \<Rightarrow> number" where
  "scaleInfinity a infinity = (if a = 0 then NaN else if 0 < a then infinity else negD infinity)"

text \<open>\<open>a * b\<close>.\<close>

fun mulD :: "number \<Rightarrow> number \<Rightarrow> number" where
  "mulD NaN b = NaN"
| "mulD a NaN = NaN"
| "mulD (Num a) (Num b) = toNumber (a * b)"
| "mulD (Num a) b = scaleInfinity a b"
| "mulD a (Num b) = scaleInfinity b a"
| "mulD PosInfinity b = b"
| "mulD NegInfinity b = negD b"

text \<open>
  \<open>Math.floor(a / b)\<close> for doubles \<open>a\<close> and \<open>b\<close> with integer values and \<open>b > 0\<close>.
  The quotient is rounded to the nearest double first: its significand, the quotient
  scaled by \<open>2^sh\<close> to lie between \<open>2^52\<close> and \<open>2^53\<close>, is rounded to an integer.
  (The divisor is a count of accounts; the quotient is far from the subnormal range.)
\<close>

definition floorQuot :: "int \<Rightarrow> int \<Rightarrow> int" where
  "floorQuot a b =
     (if a = 0 then 0
      else
        (let x = \<bar>a\<bar>;
             sh0 = 52 - (bitlen x - bitlen b);
             sh = (if (if 0 \<le> sh0 then b * 2 ^ 52 \<le> x * 2 ^ nat sh0
                       else b * 2 ^ 52 * 2 ^ nat (- sh0) \<le> x)
                   then sh0 else sh0 + 1);
             m = (if 0 \<le> sh then rne (x * 2 ^ nat sh) b else rne x (b * 2 ^ nat (- sh)))
         in if 0 \<le> sh
            then (if 0 < a then m div 2 ^ nat sh else (- m) div 2 ^ nat sh)
            else (if 0 < a then m * 2 ^ nat (- sh) else - (m * 2 ^ nat (- sh)))))"

text \<open>\<open>Math.floor(a / c)\<close> for a number \<open>a\<close> and a count \<open>c\<close>; \<open>c\<close> may be zero.\<close>

fun floorDivD :: "number \<Rightarrow> nat \<Rightarrow> number" where
  "floorDivD (Num a) c =
     (if c = 0 then (if 0 < a then PosInfinity else if a < 0 then NegInfinity else NaN)
      else Num (floorQuot a (int c)))"
| "floorDivD a c = a"

text \<open>\<open>a < b\<close>, and \<open>a != b\<close> (for two numbers the same as \<open>a !== b\<close>).\<close>

fun ltD :: "number \<Rightarrow> number \<Rightarrow> bool" where
  "ltD NaN b = False"
| "ltD a NaN = False"
| "ltD (Num a) (Num b) = (a < b)"
| "ltD a NegInfinity = False"
| "ltD NegInfinity b = True"
| "ltD PosInfinity b = False"
| "ltD a PosInfinity = True"

definition neqD :: "number \<Rightarrow> number \<Rightarrow> bool" where
  "neqD a b = (a = NaN \<or> b = NaN \<or> a \<noteq> b)"

text \<open>\<open>xs.reduce((a, b) => a + b, 0)\<close>, and a total accumulated with \<open>+=\<close> from 0.\<close>

definition sumD :: "number list \<Rightarrow> number" where
  "sumD xs = foldl addD (Num 0) xs"

text \<open>The text of a number inside a template literal.\<close>

fun showNumber :: "number \<Rightarrow> string" where
  "showNumber (Num a) = showInt a"
| "showNumber PosInfinity = ''Infinity''"
| "showNumber NegInfinity = ''-Infinity''"
| "showNumber NaN = ''NaN''"

section \<open>Data model\<close>

text \<open>\<open>ComposeParams\<close>; an absent \<open>reset\<close> or \<open>aws\<close> is falsy and modelled as \<open>False\<close>.\<close>

record ComposeParams =
  target :: string
  user :: "string option"
  reset :: bool
  aws :: bool

text \<open>The open-port flag has type \<open>number | undefined | boolean | string\<close>.\<close>

datatype OpenPort =
    OpenPortUndefined
  | OpenPortBoolean bool
  | OpenPortNumber int
  | OpenPortString string

record DatabasePreset =
  db_name :: string
  db_openPort :: OpenPort

record NodePreset =
  node_name :: string
  node_openPort :: OpenPort
  databaseHost :: "string option"
  brokerHost :: "string option"
  openBrokerPort :: OpenPort

record GatewayPreset =
  gw_name :: string
  gw_openPort :: OpenPort
  gw_databaseHost :: string

text \<open>
  The genesis definition. An entry of \<open>currencyDistributions\<close> is \<open>{address, amount}\<close>;
  \<open>balances\<close> and \<open>transactions\<close> are objects, modelled by their \<open>Object.entries\<close>.
\<close>

record CurrencyDistribution =
  dist_address :: string
  amount :: number

record MosaicPreset =
  mosaic_name :: string
  mosaic_supply :: number
  accounts :: "nat option"
  currencyDistributions :: "CurrencyDistribution list option"

record NemesisPreset =
  mosaics :: "MosaicPreset list option"
  balances :: "(string \<times> number) list option"
  transactions :: "(string \<times> string) list option"
  nemesis_transactionsDirectory :: "string option"

text \<open>The fields of \<open>ConfigPreset\<close> that the two services read.\<close>

record ConfigPreset =
  databases :: "DatabasePreset list option"
  nodes :: "NodePreset list option"
  gateways :: "GatewayPreset list option"
  mongoImage :: string
  symbolServerImage :: string
  symbolRestImage :: string
  nemesis :: "NemesisPreset option"
  nemesisGenerationHashSeed :: string
  transactionsDirectory :: string

record ConfigAccount =
  privateKey :: string
  publicKey :: string
  address :: string

text \<open>Of a \<open>NodeAccount\<close>, the fields read below.\<close>

record NodeAccount =
  signing :: ConfigAccount
  vrf :: ConfigAccount
  account_name :: string

text \<open>
  \<open>DockerComposeService\<close>. A field the object literal does not set is \<open>None\<close>;
  \<open>networks\<close> holds \<open>networks.default.ipv4_address\<close>.
\<close>

record DockerComposeService =
  container_name :: "string option"
  svc_image :: string
  svc_user :: "string option"
  command :: string
  stop_signal :: string
  depends_on :: "string list option"
  restart :: "string option"
  ports :: "string list"
  volumes :: "string list option"
  networks :: "string option"

text \<open>\<open>DockerCompose\<close>; \<open>subnet\<close> holds \<open>networks.default.ipam.config[0].subnet\<close>.\<close>

record DockerCompose =
  version :: string
  subnet :: string
  compose_services :: "(string \<times> DockerComposeService) list"

text \<open>
  What a service does to the outside world, in the order the calls are issued. The
  helpers of \<open>BootstrapUtils\<close>, the file system and the logger are external; each call
  is recorded with its arguments.
\<close>

datatype effect =
    DeleteFolder string
  | Mkdir string
  | GenerateConfiguration string string
  | WriteTextFile string string
  | CreateImageUsingExec string string string
  | Exec string
  | WriteYaml string DockerCompose
  | WriteFile string string
  | LogInfo string
  | LogWarn string

text \<open>
  The environment of a run: the constructor's \<open>root\<close>, \<open>process.cwd()\<close>, the constant
  \<open>BootstrapUtils.workingDir\<close> and the result of \<open>BootstrapUtils.getDockerUserGroup()\<close>.
\<close>

record Env =
  root :: string
  currentDir :: string
  workingDir :: string
  dockerUserGroup :: "string option"

section \<open>ComposeService: the topology compiler\<close>

subsection \<open>The helpers of \<open>run\<close>\<close>

definition vol :: "string \<Rightarrow> string \<Rightarrow> string" where
  "vol hostFolder imageFolder = hostFolder @ '':'' @ imageFolder"

text \<open>JavaScript truthiness of an open-port value.\<close>

fun truthy :: "OpenPort \<Rightarrow> bool" where
  "truthy OpenPortUndefined = False"
| "truthy (OpenPortBoolean b) = b"
| "truthy (OpenPortNumber n) = (n \<noteq> 0)"
| "truthy (OpenPortString s) = (s \<noteq> [])"

text \<open>The text of an open-port value inside a template literal.\<close>

fun portText :: "OpenPort \<Rightarrow> string" where
  "portText OpenPortUndefined = ''undefined''"
| "portText (OpenPortBoolean b) = (if b then ''true'' else ''false'')"
| "portText (OpenPortNumber n) = showInt n"
| "portText (OpenPortString s) = s"

definition resolvePorts :: "nat \<Rightarrow> OpenPort \<Rightarrow> string list" where
  "resolvePorts internalPort openPort =
     (if \<not> truthy openPort then []
      else if openPort = OpenPortBoolean True \<or> openPort = OpenPortString ''true''
        then [showNat internalPort @ '':'' @ showNat internalPort]
      else [portText openPort @ '':'' @ showNat internalPort])"

text \<open>\<open>str.trim() === ''\<close>: nothing but white space.\<close>

definition blank :: "string \<Rightarrow> bool" where
  "blank s = list_all (\<lambda>c. c \<in> set [CHR '' '', CHR 0x09, CHR 0x0A, CHR 0x0B, CHR 0x0C, CHR 0x0D]) s"

definition resolveUser :: "Env \<Rightarrow> ComposeParams \<Rightarrow> string option" where
  "resolveUser env params =
     (case user params of
        None \<Rightarrow> None
      | Some u \<Rightarrow>
          if u = [] \<or> blank u then None
          else if u = ''current'' then dockerUserGroup env
          else Some u)"

text \<open>The \<open>ADD\<close> line that \<open>resolveImage\<close> writes for one volume.\<close>

definition addDirective :: "string \<Rightarrow> string" where
  "addDirective v =
     (let parts = split (CHR '':'') v
      in ''ADD '' @ replace ''./'' ''docker/'' (replace ''../'' '''' (hd parts)) @ '' ''
           @ (case tl parts of [] \<Rightarrow> ''undefined'' | p # _ \<Rightarrow> p))"

definition dockerfileContent :: "string \<Rightarrow> string list \<Rightarrow> string" where
  "dockerfileContent img vs =
     ''FROM docker.io/'' @ img @ newline @ newline
       @ joinWith newline (map addDirective vs) @ newline"

definition repository :: string where
  "repository = ''nem-repository''"

definition registry :: string where
  "registry = ''172617417348.dkr.ecr.us-east-1.amazonaws.com''"

definition generatedImageName :: "string \<Rightarrow> string" where
  "generatedImageName serviceName = repository @ '':'' @ serviceName"

definition absoluteImageUrl :: "string \<Rightarrow> string" where
  "absoluteImageUrl serviceName = registry @ ''/'' @ generatedImageName serviceName"

text \<open>
  \<open>resolveImage\<close> returns the image and the volumes of the service definition, here
  together with the effects of the registry-push branch.
\<close>

definition resolveImage ::
  "ComposeParams \<Rightarrow> string \<Rightarrow> string \<Rightarrow> string \<Rightarrow> string \<Rightarrow> string list
     \<Rightarrow> (string \<times> string list option) \<times> effect list" where
  "resolveImage params targetDir targetDocker serviceName img vs =
     (if aws params then
        (let dockerFile = joinPath targetDir (''Dockerfile-'' @ serviceName)
         in ((generatedImageName serviceName, None),
             [WriteTextFile dockerFile (dockerfileContent img vs)]
               @ map (\<lambda>v. Mkdir (joinPath targetDocker (hd (split (CHR '':'') v)))) vs
               @ [CreateImageUsingExec targetDir dockerFile (generatedImageName serviceName),
                  Exec (''docker tag '' @ generatedImageName serviceName @ '' ''
                          @ absoluteImageUrl serviceName),
                  Exec (''docker push '' @ absoluteImageUrl serviceName)]))
      else ((img, Some vs), []))"

subsection \<open>Building the services\<close>

text \<open>
  \<open>services\<close> is a JavaScript object holding references: the node service is stored
  under its name and extended afterwards (\<open>depends_on.push\<close>), so the model keeps the
  service objects in a heap and the record \<open>services\<close> as an association list from
  names to heap addresses, in insertion order. After \<open>resolveImage\<close> a callback has no
  further suspension point, so its assignments are never interleaved with another
  callback's, and the callbacks of one \<open>Promise.all\<close> finish before the next block
  starts. The model runs the callbacks of a block in the order of the list, which is
  the order in which they resume when \<open>resolveImage\<close> awaits nothing (no registry
  push); with a registry push the external calls decide the order within a block.
\<close>

record ComposeState =
  heap :: "DockerComposeService list"
  services :: "(string \<times> nat) list"
  effects :: "effect list"

definition pushDependsOn :: "string \<Rightarrow> DockerComposeService \<Rightarrow> DockerComposeService" where
  "pushDependsOn h s = s\<lparr>depends_on := map_option (\<lambda>ds. ds @ [h]) (depends_on s)\<rparr>"

text \<open>JavaScript truthiness of an optional string: present and not empty.\<close>

fun declared :: "string option \<Rightarrow> bool" where
  "declared None = False"
| "declared (Some s) = (s \<noteq> [])"

definition databaseService ::
  "string option \<Rightarrow> DatabasePreset \<Rightarrow> string \<times> string list option \<Rightarrow> DockerComposeService" where
  \<open>databaseService usr n info =
     \<lparr>container_name = Some (db_name n),
      svc_image = fst info,
      svc_user = usr,
      command = ''bash -c "/bin/bash /userconfig/mongors.sh '' @ db_name n
                  @ '' & mongod --dbpath=/dbdata --bind_ip='' @ db_name n @ ''"'',
      stop_signal = ''SIGINT'',
      depends_on = None,
      restart = None,
      ports = resolvePorts 27017 (db_openPort n),
      volumes = snd info,
      networks = None\<rparr>\<close>

text \<open>The volumes passed to \<open>resolveImage\<close> for a database, a node and a gateway.\<close>

definition databaseVolumes :: "string list" where
  "databaseVolumes =
     [vol ''./mongo'' ''/userconfig/:ro'',
      vol ''../data/mongo'' ''/dbdata:rw'',
      vol ''../state'' ''/state'']"

definition nodeVolumes :: "Env \<Rightarrow> NodePreset \<Rightarrow> string list" where
  "nodeVolumes env n =
     [vol (''../'' @ workingDir env @ ''/'' @ node_name n) ''/symbol-workdir'',
      vol ''./userconfig'' ''/symbol-commands'',
      vol ''../state'' ''/state'']"

definition gatewayVolumes :: "Env \<Rightarrow> GatewayPreset \<Rightarrow> string list" where
  "gatewayVolumes env n =
     [vol (''../'' @ workingDir env @ ''/'' @ gw_name n) ''/symbol-workdir'']"

definition databaseStep ::
  "Env \<Rightarrow> ComposeParams \<Rightarrow> ConfigPreset \<Rightarrow> string \<Rightarrow> string \<Rightarrow> string option
     \<Rightarrow> ComposeState \<Rightarrow> DatabasePreset \<Rightarrow> ComposeState" where
  "databaseStep env params presetData targetDir targetDocker usr st n =
     (let (databaseImageInfo, es) =
            resolveImage params targetDir targetDocker (db_name n) (mongoImage presetData)
              databaseVolumes
      in st\<lparr>heap := heap st @ [databaseService usr n databaseImageInfo],
            services := AList.update (db_name n) (length (heap st)) (services st),
            effects := effects st @ es\<rparr>)"

text \<open>The node service as the object literal creates it: \<open>depends_on\<close> is empty.\<close>

definition nodeService ::
  "string option \<Rightarrow> NodePreset \<Rightarrow> string \<times> string list option \<Rightarrow> DockerComposeService" where
  \<open>nodeService usr n info =
     \<lparr>container_name = None,
      svc_image = fst info,
      svc_user = usr,
      command = ''bash -c "/bin/bash /symbol-commands/runServerRecover.sh  '' @ node_name n
                  @ '' && /bin/bash /symbol-commands/startServer.sh '' @ node_name n @ ''"'',
      stop_signal = ''SIGINT'',
      depends_on = Some [],
      restart = Some ''on-failure:2'',
      ports = resolvePorts 7900 (node_openPort n),
      volumes = snd info,
      networks = None\<rparr>\<close>

text \<open>The broker service, from the node service \<open>s\<close> and the broker host \<open>b\<close>.\<close>

definition brokerService ::
  "string option \<Rightarrow> NodePreset \<Rightarrow> string \<Rightarrow> DockerComposeService \<Rightarrow> DockerComposeService" where
  \<open>brokerService usr n b s =
     \<lparr>container_name = None,
      svc_image = svc_image s,
      svc_user = usr,
      command = ''bash -c "/bin/bash /symbol-commands/runServerRecover.sh '' @ b
                  @ '' && /bin/bash /symbol-commands/startBroker.sh '' @ b @ ''"'',
      stop_signal = ''SIGINT'',
      depends_on = None,
      restart = Some ''on-failure:2'',
      ports = resolvePorts 7902 (openBrokerPort n),
      volumes = volumes s,
      networks = None\<rparr>\<close>

definition nodeStep ::
  "Env \<Rightarrow> ComposeParams \<Rightarrow> ConfigPreset \<Rightarrow> string \<Rightarrow> string \<Rightarrow> string option
     \<Rightarrow> ComposeState \<Rightarrow> NodePreset \<Rightarrow> ComposeState" where
  "nodeStep env params presetData targetDir targetDocker usr st n =
     (let (nodeImageData, es) =
            resolveImage params targetDir targetDocker (node_name n) (symbolServerImage presetData)
              (nodeVolumes env n);
          s0 = nodeService usr n nodeImageData;
          s1 = (if declared (databaseHost n) then pushDependsOn (the (databaseHost n)) s0 else s0);
          a = length (heap st);
          st1 = st\<lparr>heap := heap st @ [s1],
                   services := AList.update (node_name n) a (services st),
                   effects := effects st @ es\<rparr>
      in if declared (brokerHost n) then
           (let b = the (brokerHost n);
                st2 = st1\<lparr>heap := heap st1 @ [brokerService usr n b s1],
                          services := AList.update b (length (heap st1)) (services st1)\<rparr>
            in st2\<lparr>heap := (heap st2)[a := pushDependsOn b (heap st2 ! a)]\<rparr>)
         else st1)"

definition gatewayService ::
  "string option \<Rightarrow> GatewayPreset \<Rightarrow> string \<times> string list option \<Rightarrow> DockerComposeService" where
  \<open>gatewayService usr n info =
     \<lparr>container_name = None,
      svc_image = fst info,
      svc_user = usr,
      command = ''ash -c "cd /symbol-workdir && npm start --prefix /app/catapult-rest/rest /symbol-workdir/rest.json"'',
      stop_signal = ''SIGINT'',
      depends_on = Some [gw_databaseHost n],
      restart = None,
      ports = resolvePorts 3000 (gw_openPort n),
      volumes = snd info,
      networks = Some ''172.20.0.10''\<rparr>\<close>

definition gatewayStep ::
  "Env \<Rightarrow> ComposeParams \<Rightarrow> ConfigPreset \<Rightarrow> string \<Rightarrow> string \<Rightarrow> string option
     \<Rightarrow> ComposeState \<Rightarrow> GatewayPreset \<Rightarrow> ComposeState" where
  "gatewayStep env params presetData targetDir targetDocker usr st n =
     (let (gatewayImageInfo, es) =
            resolveImage params targetDir targetDocker (gw_name n) (symbolRestImage presetData)
              (gatewayVolumes env n)
      in st\<lparr>heap := heap st @ [gatewayService usr n gatewayImageInfo],
            services := AList.update (gw_name n) (length (heap st)) (services st),
            effects := effects st @ es\<rparr>)"

text \<open>\<open>x || []\<close> for an optional list.\<close>

fun orEmpty :: "'a list option \<Rightarrow> 'a list" where
  "orEmpty None = []"
| "orEmpty (Some xs) = xs"

text \<open>The three \<open>Promise.all\<close> blocks, from the empty \<open>services\<close> object.\<close>

definition buildServices ::
  "Env \<Rightarrow> ComposeParams \<Rightarrow> ConfigPreset \<Rightarrow> string \<Rightarrow> string \<Rightarrow> string option \<Rightarrow> ComposeState" where
  "buildServices env params presetData targetDir targetDocker usr =
     (let st0 = \<lparr>heap = [], services = [], effects = []\<rparr>;
          st1 = foldl (databaseStep env params presetData targetDir targetDocker usr) st0
                  (orEmpty (databases presetData));
          st2 = foldl (nodeStep env params presetData targetDir targetDocker usr) st1
                  (orEmpty (nodes presetData))
      in foldl (gatewayStep env params presetData targetDir targetDocker usr) st2
           (orEmpty (gateways presetData)))"

text \<open>The \<open>services\<close> object as it is written out: every reference followed.\<close>

definition servicesOf :: "ComposeState \<Rightarrow> (string \<times> DockerComposeService) list" where
  "servicesOf st = map (\<lambda>(k, a). (k, heap st ! a)) (services st)"

subsection \<open>\<open>ComposeService.run\<close>\<close>

text \<open>
  Modelled from the spec: \<open>BootstrapUtils.deleteFolder\<close> is not among the sources. A
  reset removes the docker folder and everything below it (spec 4.5, 5 and 7: with a
  reset nothing of a prior run short-circuits the new one). The file system is the list
  of the paths that exist when \<open>run\<close> starts.
\<close>

definition deleteFolder :: "string \<Rightarrow> string list \<Rightarrow> string list" where
  "deleteFolder folder fs = filter (\<lambda>p. p \<noteq> folder \<and> \<not> prefix (folder @ ''/'') p) fs"

text \<open>
  \<open>run\<close> returns the location of the topology document, here with the effects in
  order. \<open>presetData\<close> is the value of the first statement: the preset passed in, or
  the one \<open>BootstrapUtils\<close> loads from the target.
\<close>

definition run :: "Env \<Rightarrow> ComposeParams \<Rightarrow> ConfigPreset \<Rightarrow> string list \<Rightarrow> string \<times> effect list" where
  "run env params presetData fs =
     (let targetDir = joinPath (currentDir env) (target params);
          targetDocker = joinPath targetDir ''docker'';
          e0 = (if reset params then [DeleteFolder targetDocker] else []);
          fs1 = (if reset params then deleteFolder targetDocker fs else fs);
          dockerFile = joinPath targetDocker ''docker-compose.yml''
      in if dockerFile \<in> set fs1 then
           (dockerFile, e0 @ [LogInfo (dockerFile @ '' already exist. Reusing. (run -r to reset)'')])
         else
           (let usr = (if aws params then None else resolveUser env params);
                st = buildServices env params presetData targetDir targetDocker usr;
                dockerCompose =
                  \<lparr>version = ''3'', subnet = ''172.20.0.0/24'', compose_services = servicesOf st\<rparr>
            in (dockerFile,
                e0 @ [Mkdir (joinPath (target params) ''state''),
                      Mkdir targetDocker,
                      GenerateConfiguration (joinPath (joinPath (root env) ''config'') ''docker'')
                        targetDocker,
                      LogInfo ''creating docker-compose.yml from last used profile.'']
                   @ effects st
                   @ [WriteYaml dockerFile dockerCompose,
                      LogInfo (''docker-compose.yml file created '' @ dockerFile)])))"

section \<open>ConfigService: the genesis ledger\<close>

datatype error =
    RangeError
  | InvalidNemgenTotalSupplied number number
  | NemesisMustBeDefined
  | PayloadError
  | TypeError
  | NglAccountNotFound
  | NglAccountNotEnoughBalance number number
  | SuppliedBalanceDifferent number number

text \<open>
  The functions of the SDK that the service calls: the hash of a transaction payload
  under a generation hash seed (\<open>None\<close> where it throws), the parser of a payload
  (\<open>False\<close> where it throws), and the payload of the key-link transaction of a node,
  signed under the seed.
\<close>

record Sdk =
  createTransactionHash :: "string \<Rightarrow> string \<Rightarrow> string option"
  createFromPayload :: "string \<Rightarrow> bool"
  signVrf :: "NodeAccount \<Rightarrow> string \<Rightarrow> string"

subsection \<open>\<open>generateRandomConfiguration\<close>: the distributions of the mosaics\<close>

text \<open>
  \<open>Account.generateNewAccount\<close> draws a fresh random account. The randomness source
  is the sequence \<open>gen\<close> of the accounts it will return; the counter of the accounts
  drawn so far is passed along. \<open>generateAddresses\<close> maps over
  \<open>[...Array(size).keys()]\<close>: \<open>Array(undefined)\<close> is the array of the one element
  \<open>undefined\<close>, and a length of \<open>2^32\<close> or more is a \<open>RangeError\<close>.
\<close>

definition generateAddresses ::
  "(nat \<Rightarrow> ConfigAccount) \<Rightarrow> nat \<Rightarrow> nat option \<Rightarrow> error + (ConfigAccount list \<times> nat)" where
  "generateAddresses gen k n =
     (case n of
        None \<Rightarrow> Inr (map gen [k ..< k + 1], k + 1)
      | Some n' \<Rightarrow>
          if 2 ^ 32 \<le> int n' then Inl RangeError
          else Inr (map gen [k ..< k + n'], k + n'))"

text \<open>The first \<open>forEach\<close>: \<open>mosaics[m.name] = generateAddresses(networkType, m.accounts)\<close>.\<close>

fun generateMosaicAccounts ::
  "(nat \<Rightarrow> ConfigAccount) \<Rightarrow> nat \<Rightarrow> MosaicPreset list \<Rightarrow> (string \<times> ConfigAccount list) list
     \<Rightarrow> error + ((string \<times> ConfigAccount list) list \<times> nat)" where
  "generateMosaicAccounts gen k [] table = Inr (table, k)"
| "generateMosaicAccounts gen k (m # ms) table =
     (case generateAddresses gen k (accounts m) of
        Inl e \<Rightarrow> Inl e
      | Inr (as, k') \<Rightarrow>
          generateMosaicAccounts gen k' ms (AList.update (mosaic_name m) as table))"

text \<open>\<open>m.accounts || 0\<close>.\<close>

fun accountsOrZero :: "nat option \<Rightarrow> nat" where
  "accountsOrZero None = 0"
| "accountsOrZero (Some n) = n"

text \<open>
  The distribution generated for a mosaic without one, from the accounts found under
  its name and the node accounts. \<open>totalAccounts\<close> is a sum of two counts below
  \<open>2^32\<close> and so exact.
\<close>

definition defaultDistributions ::
  "MosaicPreset \<Rightarrow> ConfigAccount list \<Rightarrow> NodeAccount list \<Rightarrow> CurrencyDistribution list" where
  "defaultDistributions m as ns =
     (let totalAccounts = accountsOrZero (accounts m) + length ns;
          amountPerAccount = floorDivD (mosaic_supply m) totalAccounts;
          ds = map (\<lambda>a. \<lparr>dist_address = address a, amount = amountPerAccount\<rparr>) as
                 @ map (\<lambda>n. \<lparr>dist_address = address (signing n), amount = amountPerAccount\<rparr>) ns
      in case ds of
           [] \<Rightarrow> []
         | d # rest \<Rightarrow>
             d\<lparr>amount :=
                 addD (amount d)
                   (subD (mosaic_supply m)
                      (mulD (Num (int totalAccounts)) amountPerAccount))\<rparr> # rest)"

definition supplied :: "MosaicPreset \<Rightarrow> number" where
  "supplied m = sumD (map amount (orEmpty (currencyDistributions m)))"

definition checkSupplied :: "MosaicPreset \<Rightarrow> error + MosaicPreset" where
  "checkSupplied m =
     (if neqD (mosaic_supply m) (supplied m)
      then Inl (InvalidNemgenTotalSupplied (mosaic_supply m) (supplied m))
      else Inr m)"

text \<open>
  The body of the second \<open>forEach\<close>. A name without generated accounts cannot occur
  after the first loop (\<open>accounts\<close> would be \<open>undefined\<close> and \<open>accounts.map\<close>
  would throw).
\<close>

definition distributeMosaic ::
  "(string \<times> ConfigAccount list) list \<Rightarrow> NodeAccount list \<Rightarrow> MosaicPreset
     \<Rightarrow> error + MosaicPreset" where
  "distributeMosaic table ns m =
     (case currencyDistributions m of
        Some ds \<Rightarrow> checkSupplied m
      | None \<Rightarrow>
          (case map_of table (mosaic_name m) of
             None \<Rightarrow> Inl TypeError
           | Some as \<Rightarrow>
               checkSupplied
                 (m\<lparr>currencyDistributions := Some (defaultDistributions m as ns)\<rparr>)))"

text \<open>The second \<open>forEach\<close>: it stops at the first mosaic that throws.\<close>

fun distributeMosaics ::
  "(string \<times> ConfigAccount list) list \<Rightarrow> NodeAccount list \<Rightarrow> MosaicPreset list
     \<Rightarrow> error + MosaicPreset list" where
  "distributeMosaics table ns [] = Inr []"
| "distributeMosaics table ns (m # ms) =
     (case distributeMosaic table ns m of
        Inl e \<Rightarrow> Inl e
      | Inr m' \<Rightarrow>
          (case distributeMosaics table ns ms of
             Inl e \<Rightarrow> Inl e
           | Inr ms' \<Rightarrow> Inr (m' # ms')))"

text \<open>
  Both loops, for the mosaics \<open>ms\<close> of the preset and the node accounts \<open>ns\<close>
  (\<open>addresses.nodes || []\<close>): the mosaics with their distributions and
  \<open>addresses.mosaics\<close>, or the error thrown.
\<close>

definition generateMosaics ::
  "(nat \<Rightarrow> ConfigAccount) \<Rightarrow> nat \<Rightarrow> NodeAccount list \<Rightarrow> MosaicPreset list
     \<Rightarrow> error + (MosaicPreset list \<times> (string \<times> ConfigAccount list) list)" where
  "generateMosaics gen k ns ms =
     (case generateMosaicAccounts gen k ms [] of
        Inl e \<Rightarrow> Inl e
      | Inr (table, k') \<Rightarrow>
          (case distributeMosaics table ns ms of
             Inl e \<Rightarrow> Inl e
           | Inr ms' \<Rightarrow> Inr (ms', table)))"

subsection \<open>\<open>storeTransaction\<close> and the key-link transactions\<close>

text \<open>
  \<open>storeTransaction\<close> parses the payload, which throws on a malformed one, and then
  writes it to \<open>{directory}/{name}.bin\<close>.
\<close>

definition storeTransaction :: "Sdk \<Rightarrow> string \<Rightarrow> string \<Rightarrow> string \<Rightarrow> error + effect" where
  "storeTransaction sdk dir name payload =
     (if createFromPayload sdk payload
      then Inr (WriteFile (dir @ ''/'' @ name @ ''.bin'') payload)
      else Inl PayloadError)"

definition createVrfTransaction :: "Sdk \<Rightarrow> string \<Rightarrow> string \<Rightarrow> NodeAccount \<Rightarrow> error + effect" where
  "createVrfTransaction sdk dir seed node =
     storeTransaction sdk dir (''vrf_'' @ account_name node) (signVrf sdk node seed)"

text \<open>\<open>await Promise.all\<close> of promises that write: rejected when one of them is.\<close>

fun promiseAll :: "(error + effect) list \<Rightarrow> error + effect list" where
  "promiseAll [] = Inr []"
| "promiseAll (Inl e # ps) = Inl e"
| "promiseAll (Inr w # ps) = (case promiseAll ps of Inl e \<Rightarrow> Inl e | Inr ws \<Rightarrow> Inr (w # ws))"

subsection \<open>\<open>generateNemesisConfig\<close>: the opt-in transactions\<close>

text \<open>
  The state of the \<open>map\<close> over the entries: the hashes accepted so far, the entries
  whose promise is fulfilled (a skipped entry yields \<open>undefined\<close> and is filtered
  out), the errors of the rejected promises, and the effects.
\<close>

record OptInState =
  transactionHashes :: "string list"
  stored :: "(string \<times> string) list"
  rejections :: "error list"
  optInEffects :: "effect list"

text \<open>
  One callback. The hash is computed in the callback itself, so where it throws the
  \<open>map\<close> is left at once; the promise of \<open>storeTransaction\<close> is rejected later, at
  the \<open>await\<close>.
\<close>

definition optInStep ::
  "Sdk \<Rightarrow> string \<Rightarrow> string \<Rightarrow> OptInState \<Rightarrow> string \<times> string \<Rightarrow> error + OptInState" where
  "optInStep sdk seed dir st entry =
     (let key = fst entry;
          payload = snd entry
      in case createTransactionHash sdk payload seed of
           None \<Rightarrow> Inl PayloadError
         | Some transactionHash \<Rightarrow>
             if transactionHash \<in> set (transactionHashes st) then
               Inr (st\<lparr>optInEffects := optInEffects st
                          @ [LogWarn (''Transaction '' @ key @ '' wth hash '' @ transactionHash
                                        @ '' already exist. Excluded from folder.'')]\<rparr>)
             else
               (case storeTransaction sdk dir key payload of
                  Inl e \<Rightarrow>
                    Inr (st\<lparr>transactionHashes := transactionHashes st @ [transactionHash],
                            rejections := rejections st @ [e]\<rparr>)
                | Inr w \<Rightarrow>
                    Inr (st\<lparr>transactionHashes := transactionHashes st @ [transactionHash],
                            stored := stored st @ [entry],
                            optInEffects := optInEffects st @ [w]\<rparr>)))"

fun optInMap ::
  "Sdk \<Rightarrow> string \<Rightarrow> string \<Rightarrow> OptInState \<Rightarrow> (string \<times> string) list \<Rightarrow> error + OptInState" where
  "optInMap sdk seed dir st [] = Inr st"
| "optInMap sdk seed dir st (entry # entries) =
     (case optInStep sdk seed dir st entry of
        Inl e \<Rightarrow> Inl e
      | Inr st' \<Rightarrow> optInMap sdk seed dir st' entries)"

text \<open>
  The \<open>map\<close>, the \<open>await Promise.all\<close> and the line logged with the number of
  transactions.
\<close>

definition optInTransactions ::
  "Sdk \<Rightarrow> string \<Rightarrow> string \<Rightarrow> (string \<times> string) list \<Rightarrow> error + OptInState" where
  "optInTransactions sdk seed dir entries =
     (case optInMap sdk seed dir
             \<lparr>transactionHashes = [], stored = [], rejections = [], optInEffects = []\<rparr> entries of
        Inl e \<Rightarrow> Inl e
      | Inr st \<Rightarrow>
          (case rejections st of
             e # _ \<Rightarrow> Inl e
           | [] \<Rightarrow>
               Inr (st\<lparr>optInEffects := optInEffects st
                          @ [LogInfo (''Found '' @ showNat (length (stored st))
                                        @ '' opted in transactions.'')]\<rparr>)))"

subsection \<open>\<open>generateNemesisConfig\<close>: the opt-in balances\<close>

text \<open>Reading \<open>amount\<close> of a value that may be \<open>undefined\<close>.\<close>

fun amountOf :: "CurrencyDistribution option \<Rightarrow> error + number" where
  "amountOf None = Inl TypeError"
| "amountOf (Some d) = Inr (amount d)"

text \<open>
  Lines 354 to 391 on the mosaics \<open>ms\<close> and the optional balances. \<open>nglAccount\<close> is
  a reference to the first entry of the array that the balances are pushed to, so its
  new amount is the first entry's.
\<close>

definition optInBalances ::
  "MosaicPreset list \<Rightarrow> (string \<times> number) list option
     \<Rightarrow> error + (MosaicPreset list \<times> effect list)" where
  \<open>optInBalances ms bal =
     (case ms of
        [] \<Rightarrow> Inl TypeError
      | currencyMosaic # otherMosaics \<Rightarrow>
          (case currencyDistributions currencyMosaic of
             None \<Rightarrow> Inl TypeError
           | Some ds \<Rightarrow>
               (let nglAccount = (case ds of [] \<Rightarrow> None | d # _ \<Rightarrow> Some d)
                in case amountOf nglAccount of
                     Inl e \<Rightarrow> Inl e
                   | Inr originalNglAccountBalance \<Rightarrow>
                       if nglAccount = None then Inl NglAccountNotFound
                       else
                         (let ngl = the nglAccount;
                              entries = orEmpty bal;
                              totalOptedInBalance = sumD (map snd entries);
                              pushed = tl ds @ map (\<lambda>(a, v). \<lparr>dist_address = a, amount = v\<rparr>) entries;
                              es = (case bal of
                                      None \<Rightarrow> []
                                    | Some b \<Rightarrow>
                                        [LogInfo (''Removing '' @ showNat (length b)
                                           @ '' accounts (total of ''
                                           @ showNumber totalOptedInBalance
                                           @ '') from "ngl" account '' @ dist_address ngl)]);
                              ngl' = ngl\<lparr>amount := subD (amount ngl) totalOptedInBalance\<rparr>;
                              ds' = ngl' # pushed;
                              providedBalances = sumD (map amount ds');
                              currentBalance = providedBalances
                          in if ltD (amount ngl') (Num 1) then
                               Inl (NglAccountNotEnoughBalance originalNglAccountBalance currentBalance)
                             else if neqD currentBalance (mosaic_supply currencyMosaic) then
                               Inl (SuppliedBalanceDifferent currentBalance (mosaic_supply currencyMosaic))
                             else Inr (currencyMosaic\<lparr>currencyDistributions := Some ds'\<rparr>
                                         # otherMosaics, es)))))\<close>

subsection \<open>\<open>generateNemesisConfig\<close>\<close>

text \<open>The folder of the transactions under the working folder of the genesis block.\<close>

definition transactionsFolder :: "Env \<Rightarrow> string \<Rightarrow> ConfigPreset \<Rightarrow> NemesisPreset \<Rightarrow> string" where
  "transactionsFolder env targetParam presetData nem =
     joinPath (joinPath (joinPath targetParam (workingDir env)) ''nemesis'')
       (if declared (nemesis_transactionsDirectory nem)
        then the (nemesis_transactionsDirectory nem)
        else transactionsDirectory presetData)"

text \<open>
  \<open>generateNemesisConfig\<close> up to the calls of the template engine and of the
  genesis-block builder (lines 318 to 393): the preset as the opt-in path leaves it and
  the effects, or the error thrown. \<open>ns\<close> is \<open>addresses.nodes || []\<close>.
\<close>

definition generateNemesisConfig ::
  "Sdk \<Rightarrow> Env \<Rightarrow> string \<Rightarrow> ConfigPreset \<Rightarrow> NodeAccount list
     \<Rightarrow> error + (ConfigPreset \<times> effect list)" where
  "generateNemesisConfig sdk env targetParam presetData ns =
     (case nemesis presetData of
        None \<Rightarrow> Inl NemesisMustBeDefined
      | Some nem \<Rightarrow>
          (let dir = transactionsFolder env targetParam presetData nem;
               seed = nemesisGenerationHashSeed presetData
           in case promiseAll (map (createVrfTransaction sdk dir seed) ns) of
                Inl e \<Rightarrow> Inl e
              | Inr vrfWrites \<Rightarrow>
                  if mosaics nem \<noteq> None \<and> (transactions nem \<noteq> None \<or> balances nem \<noteq> None)
                  then
                    (case (case transactions nem of
                             None \<Rightarrow> Inr []
                           | Some txs \<Rightarrow>
                               (case optInTransactions sdk seed dir txs of
                                  Inl e \<Rightarrow> Inl e
                                | Inr st \<Rightarrow> Inr (optInEffects st))) of
                       Inl e \<Rightarrow> Inl e
                     | Inr transactionEffects \<Rightarrow>
                         (case optInBalances (orEmpty (mosaics nem)) (balances nem) of
                            Inl e \<Rightarrow> Inl e
                          | Inr (ms', balanceEffects) \<Rightarrow>
                              Inr (presetData\<lparr>nemesis := Some (nem\<lparr>mosaics := Some ms'\<rparr>)\<rparr>,
                                   Mkdir dir # vrfWrites
                                     @ [LogInfo ''Opt In mode is ON!!! balances or transactions have been provided'']
                                     @ transactionEffects @ balanceEffects)))
                  else Inr (presetData, Mkdir dir # vrfWrites)))"

section \<open>Notions used by the properties\<close>

text \<open>Every reference of \<open>services\<close> points into the heap.\<close>

definition refsValid :: "ComposeState \<Rightarrow> bool" where
  "refsValid st = list_all (\<lambda>(k, a). a < length (heap st)) (services st)"

text \<open>The names under which the callback of a node entry stores a service.\<close>

definition nodeKeys :: "NodePreset \<Rightarrow> string list" where
  "nodeKeys n = node_name n # (if declared (brokerHost n) then [the (brokerHost n)] else [])"

text \<open>The node service once the database host, if declared, has been pushed.\<close>

definition dependingOnDatabase ::
  "string option \<Rightarrow> NodePreset \<Rightarrow> string \<times> string list option \<Rightarrow> DockerComposeService" where
  "dependingOnDatabase usr n info =
     (if declared (databaseHost n)
      then pushDependsOn (the (databaseHost n)) (nodeService usr n info)
      else nodeService usr n info)"


text \<open>\<open>addresses.mosaics\<close> after the first loop, and the accounts under the name of a mosaic.\<close>

definition generatedTable ::
  "(nat \<Rightarrow> ConfigAccount) \<Rightarrow> nat \<Rightarrow> MosaicPreset list \<Rightarrow> (string \<times> ConfigAccount list) list" where
  "generatedTable gen k ms =
     (case generateMosaicAccounts gen k ms [] of Inl e \<Rightarrow> [] | Inr (table, k') \<Rightarrow> table)"

definition accountsOf ::
  "(string \<times> ConfigAccount list) list \<Rightarrow> MosaicPreset \<Rightarrow> ConfigAccount list" where
  "accountsOf table m = orEmpty (map_of table (mosaic_name m))"


text \<open>
  The hash of an entry of the transactions, and the entries whose payload has a hash
  and is parsed by the SDK.
\<close>

definition hashOf :: "Sdk \<Rightarrow> string \<Rightarrow> string \<times> string \<Rightarrow> string" where
  "hashOf sdk seed e = the (createTransactionHash sdk (snd e) seed)"

definition wellFormed :: "Sdk \<Rightarrow> string \<Rightarrow> string \<times> string \<Rightarrow> bool" where
  "wellFormed sdk seed e =
     (createTransactionHash sdk (snd e) seed \<noteq> None \<and> createFromPayload sdk (snd e))"

text \<open>The warnings among the effects, and the warning logged for a skipped entry.\<close>

fun isLogWarn :: "effect \<Rightarrow> bool" where
  "isLogWarn (LogWarn _) = True"
| "isLogWarn _ = False"

definition duplicateWarning :: "string \<Rightarrow> string \<Rightarrow> effect" where
  "duplicateWarning key transactionHash =
     LogWarn (''Transaction '' @ key @ '' wth hash '' @ transactionHash
                @ '' already exist. Excluded from folder.'')"

text \<open>The state that a callback returns, and the state that the transactions end in.\<close>

definition handled ::
  "Sdk \<Rightarrow> string \<Rightarrow> string \<Rightarrow> OptInState \<Rightarrow> string \<times> string \<Rightarrow> OptInState" where
  "handled sdk seed dir st entry = projr (optInStep sdk seed dir st entry)"

definition optedIn :: "Sdk \<Rightarrow> string \<Rightarrow> string \<Rightarrow> (string \<times> string) list \<Rightarrow> OptInState" where
  "optedIn sdk seed dir entries = projr (optInTransactions sdk seed dir entries)"

text \<open>The files of the key-link transactions of the nodes.\<close>

definition vrfWrites :: "Sdk \<Rightarrow> string \<Rightarrow> string \<Rightarrow> NodeAccount list \<Rightarrow> effect list" where
  "vrfWrites sdk dir seed ns =
     map (\<lambda>n. WriteFile (dir @ ''/'' @ (''vrf_'' @ account_name n) @ ''.bin'') (signVrf sdk n seed)) ns"

text \<open>The distribution entry pushed for an opt-in balance.\<close>

definition balanceEntry :: "string \<times> number \<Rightarrow> CurrencyDistribution" where
  "balanceEntry e = \<lparr>dist_address = fst e, amount = snd e\<rparr>"

section \<open>Example inputs\<close>

text \<open>A run in \<open>/work\<close> with the default parameters.\<close>

definition exampleEnv :: Env where
  "exampleEnv =
     \<lparr>root = ''.'', currentDir = ''/work'', workingDir = ''config'',
      dockerUserGroup = Some ''1000:1000''\<rparr>"

definition exampleParams :: ComposeParams where
  "exampleParams =
     \<lparr>target = ''target'', user = Some ''current'', reset = False, aws = False\<rparr>"

text \<open>A preset with one database, one node with a broker, and two gateways.\<close>

definition exampleNode :: NodePreset where
  "exampleNode =
     \<lparr>node_name = ''api-node-0'', node_openPort = OpenPortBoolean True,
      databaseHost = Some ''db-0'', brokerHost = Some ''api-node-broker-0'',
      openBrokerPort = OpenPortUndefined\<rparr>"

definition examplePreset :: ConfigPreset where
  "examplePreset =
     \<lparr>databases = Some [\<lparr>db_name = ''db-0'', db_openPort = OpenPortUndefined\<rparr>],
      nodes = Some [exampleNode],
      gateways = Some [\<lparr>gw_name = ''rest-gateway-0'', gw_openPort = OpenPortNumber 3000,
                         gw_databaseHost = ''db-0''\<rparr>,
                       \<lparr>gw_name = ''rest-gateway-1'', gw_openPort = OpenPortNumber 3001,
                         gw_databaseHost = ''db-0''\<rparr>],
      mongoImage = ''mongo:4.2.6-bionic'',
      symbolServerImage = ''symbolplatform/symbol-server:gcc-0.10.0'',
      symbolRestImage = ''symbolplatform/symbol-rest:1.2.0'',
      nemesis = None,
      nemesisGenerationHashSeed = ''C0FFEE'',
      transactionsDirectory = ''transactions''\<rparr>"

text \<open>A node entry whose broker host is its own name.\<close>

definition selfBrokerPreset :: ConfigPreset where
  "selfBrokerPreset =
     examplePreset
       \<lparr>databases := None,
        nodes := Some [exampleNode\<lparr>brokerHost := Some ''api-node-0''\<rparr>],
        gateways := None\<rparr>"

text \<open>A randomness source, a node account and two mosaics without distributions.\<close>

definition exampleAccount :: "nat \<Rightarrow> ConfigAccount" where
  "exampleAccount i =
     \<lparr>privateKey = ''private-'' @ showNat i, publicKey = ''public-'' @ showNat i,
      address = ''address-'' @ showNat i\<rparr>"

definition exampleNodeAccount :: NodeAccount where
  "exampleNodeAccount =
     \<lparr>signing = exampleAccount 100, vrf = exampleAccount 101, account_name = ''api-node-0''\<rparr>"




text \<open>Two mosaics of one name, with one and with two accounts.\<close>

definition sameNameMosaics :: "MosaicPreset list" where
  "sameNameMosaics =
     [\<lparr>mosaic_name = ''currency'', mosaic_supply = Num 10, accounts = Some 1,
       currencyDistributions = None\<rparr>,
      \<lparr>mosaic_name = ''currency'', mosaic_supply = Num 10, accounts = Some 2,
       currencyDistributions = None\<rparr>]"

text \<open>A mosaic of three accounts whose supply is \<open>2^53 + 2\<close>.\<close>

definition largeSupplyMosaics :: "MosaicPreset list" where
  "largeSupplyMosaics =
     [\<lparr>mosaic_name = ''currency'', mosaic_supply = Num 9007199254740994, accounts = Some 3,
       currencyDistributions = None\<rparr>]"

text \<open>
  An SDK whose parser takes a payload of eight characters or more, a batch whose third
  payload repeats the first, and a batch of one payload, too short, under two keys.
\<close>

definition exampleSdk :: Sdk where
  "exampleSdk =
     \<lparr>createTransactionHash = (\<lambda>payload seed. Some (''hash('' @ payload @ '','' @ seed @ '')'')),
      createFromPayload = (\<lambda>payload. 8 \<le> length payload),
      signVrf = (\<lambda>node seed. ''vrf('' @ account_name node @ '','' @ seed @ '')'')\<rparr>"

definition exampleTransactions :: "(string \<times> string) list" where
  "exampleTransactions =
     [(''tx1'', ''A1B2C3D4''), (''tx2'', ''C3D4E5F6''), (''tx3'', ''A1B2C3D4'')]"

definition shortTransactions :: "(string \<times> string) list" where
  "shortTransactions = [(''tx1'', ''A1B2''), (''tx2'', ''A1B2'')]"

text \<open>A currency mosaic with its distribution, and genesis definitions with transactions.\<close>

definition exampleOptInMosaic :: MosaicPreset where
  "exampleOptInMosaic =
     \<lparr>mosaic_name = ''currency'', mosaic_supply = Num 100, accounts = Some 2,
      currencyDistributions =
        Some [\<lparr>dist_address = ''address-ngl'', amount = Num 60\<rparr>,
              \<lparr>dist_address = ''address-1'', amount = Num 40\<rparr>]\<rparr>"

definition transactionsNemesis :: NemesisPreset where
  "transactionsNemesis =
     \<lparr>mosaics = Some [exampleOptInMosaic],
      balances = None,
      transactions = Some exampleTransactions,
      nemesis_transactionsDirectory = None\<rparr>"

definition transactionsPreset :: ConfigPreset where
  "transactionsPreset = examplePreset\<lparr>nemesis := Some transactionsNemesis\<rparr>"

definition shortTransactionsPreset :: ConfigPreset where
  "shortTransactionsPreset =
     examplePreset\<lparr>nemesis := Some (transactionsNemesis\<lparr>transactions := Some shortTransactions\<rparr>)\<rparr>"

text \<open>Opt-in balances, and a genesis definition with them.\<close>

definition exampleBalances :: "(string \<times> number) list" where
  "exampleBalances = [(''address-x'', Num 10), (''address-y'', Num 5)]"

definition balancesNemesis :: NemesisPreset where
  "balancesNemesis =
     \<lparr>mosaics = Some [exampleOptInMosaic],
      balances = Some exampleBalances,
      transactions = None,
      nemesis_transactionsDirectory = None\<rparr>"

definition balancesPreset :: ConfigPreset where
  "balancesPreset = examplePreset\<lparr>nemesis := Some balancesNemesis\<rparr>"

text \<open>
  A currency mosaic whose supply of \<open>2^53 + 2\<close> is the amount of its one entry, and
  three balances of 1.
\<close>

definition largeAmountMosaic :: MosaicPreset where
  "largeAmountMosaic =
     \<lparr>mosaic_name = ''currency'', mosaic_supply = Num 9007199254740994, accounts = Some 1,
      currencyDistributions =
        Some [\<lparr>dist_address = ''address-ngl'', amount = Num 9007199254740994\<rparr>]\<rparr>"

definition unitBalances :: "(string \<times> number) list" where
  "unitBalances = [(''address-x'', Num 1), (''address-y'', Num 1), (''address-z'', Num 1)]"

definition largeAmountPreset :: ConfigPreset where
  "largeAmountPreset =
     examplePreset
       \<lparr>nemesis :=
          Some \<lparr>mosaics = Some [largeAmountMosaic],
                balances = Some unitBalances,
                transactions = None,
                nemesis_transactionsDirectory = None\<rparr>\<rparr>"




section \<open>Properties of the topology compiler\<close>

subsection \<open>Port resolution\<close>

text \<open>
  C5. Port resolution is the one function \<open>resolvePorts\<close> for every service. For an
  internal port \<open>p\<close>: the open-port values \<open>true\<close> and \<open>"true"\<close> give the single
  mapping \<open>p:p\<close>; any other truthy number or string \<open>v\<close> gives the single mapping
  \<open>v:p\<close>; a falsy or absent value gives no mapping. The database, node, broker and
  gateway services all take their ports from it, with the internal ports 27017, 7900,
  7902 and 3000.
\<close>

theorem resolvePorts_uniform:
  "(openPort = OpenPortBoolean True \<or> openPort = OpenPortString ''true''
      \<longrightarrow> resolvePorts p openPort = [showNat p @ '':'' @ showNat p])
   \<and> (v \<noteq> 0 \<longrightarrow> resolvePorts p (OpenPortNumber v) = [showInt v @ '':'' @ showNat p])
   \<and> (s \<noteq> [] \<and> s \<noteq> ''true''
        \<longrightarrow> resolvePorts p (OpenPortString s) = [s @ '':'' @ showNat p])
   \<and> (\<not> truthy openPort \<longrightarrow> resolvePorts p openPort = [])
   \<and> ports (databaseService usr d info) = resolvePorts 27017 (db_openPort d)
   \<and> ports (nodeService usr n info) = resolvePorts 7900 (node_openPort n)
   \<and> ports (brokerService usr n b sv) = resolvePorts 7902 (openBrokerPort n)
   \<and> ports (gatewayService usr g info) = resolvePorts 3000 (gw_openPort g)"
  by (auto simp: resolvePorts_def databaseService_def nodeService_def brokerService_def
        gatewayService_def)

theorem resolvePorts_uniform_witness:
  "resolvePorts 7900 (OpenPortBoolean True) = [''7900:7900'']
   \<and> resolvePorts 7900 (OpenPortNumber 8001) = [''8001:7900'']
   \<and> resolvePorts 7900 (OpenPortString ''8001'') = [''8001:7900'']
   \<and> resolvePorts 7900 (OpenPortBoolean False) = []
   \<and> resolvePorts 7900 OpenPortUndefined = []"
  using resolvePorts_uniform [of "OpenPortBoolean True" 7900 8001 "''8001''"]
        resolvePorts_uniform [of "OpenPortBoolean False" 7900]
        resolvePorts_uniform [of "OpenPortUndefined" 7900]
  by (simp add: showNat.simps showInt_def digit_def)

subsection \<open>Lines of the build descriptor\<close>

lemma split_not_Nil: "split c xs \<noteq> []"
  by (induction xs) (auto split: list.splits)

lemma split_append_sep: "split c (xs @ c # ys) = split c xs @ split c ys"
proof (induction xs)
  case Nil
  show ?case by simp
next
  case (Cons x xs)
  obtain p ps where sp: "split c xs = p # ps"
    using split_not_Nil [of c xs] by (cases "split c xs") auto
  show ?case using Cons sp by simp
qed

lemma split_no_sep: "c \<notin> set xs \<Longrightarrow> split c xs = [xs]"
  by (induction xs) auto

lemma set_hd_split: "set (hd (split c xs)) \<subseteq> set xs"
  by (induction xs) (auto split: list.splits)

lemma set_split_Union: "\<Union> (set ` set (split c xs)) \<subseteq> set xs"
proof (induction xs)
  case Nil
  show ?case by simp
next
  case (Cons x xs)
  obtain p ps where sp: "split c xs = p # ps"
    using split_not_Nil [of c xs] by (cases "split c xs") auto
  show ?case using Cons sp by auto
qed

lemma set_split: "p \<in> set (split c xs) \<Longrightarrow> set p \<subseteq> set xs"
  using set_split_Union [of c xs] by auto

lemma set_replace: "set (replace pat rep xs) \<subseteq> set rep \<union> set xs"
proof (induction xs)
  case Nil
  show ?case by auto
next
  case (Cons x xs)
  have "set (drop (length pat) (x # xs)) \<subseteq> set (x # xs)" by (rule set_drop_subset)
  with Cons show ?case by auto
qed

lemma addDirective_prefix: "prefix ''ADD '' (addDirective v)"
  by (simp add: addDirective_def Let_def)

lemma addDirective_no_newline:
  assumes "CHR 0x0A \<notin> set v"
  shows "CHR 0x0A \<notin> set (addDirective v)"
proof -
  let ?parts = "split (CHR '':'') v"
  have h: "CHR 0x0A \<notin> set (hd ?parts)" using assms set_hd_split [of "CHR '':''" v] by auto
  have r1: "CHR 0x0A \<notin> set (replace ''../'' '''' (hd ?parts))"
    using h set_replace [of "''../''" "''''" "hd ?parts"] by auto
  have r2: "CHR 0x0A \<notin> set (replace ''./'' ''docker/'' (replace ''../'' '''' (hd ?parts)))"
    using r1 set_replace [of "''./''" "''docker/''" "replace ''../'' '''' (hd ?parts)"] by auto
  have t: "CHR 0x0A \<notin> set (case tl ?parts of [] \<Rightarrow> ''undefined'' | p # _ \<Rightarrow> p)"
  proof (cases "tl ?parts")
    case Nil
    then show ?thesis by simp
  next
    case (Cons p ps)
    then have "p \<in> set ?parts" by (metis list.set_intros(1) list.set_sel(2) tl_Nil list.distinct(1))
    then show ?thesis using Cons set_split [of p "CHR '':''" v] assms by auto
  qed
  show ?thesis using r2 t by (simp add: addDirective_def Let_def)
qed

lemma split_joinWith:
  assumes "\<forall>d \<in> set ds. c \<notin> set d"
  shows "split c (joinWith [c] ds @ c # rest) = (if ds = [] then [[]] else ds) @ split c rest"
  using assms
proof (induction ds)
  case Nil
  show ?case by simp
next
  case (Cons x ys)
  show ?case
  proof (cases ys)
    case Nil
    then show ?thesis using Cons.prems split_append_sep [of c x rest] by (simp add: split_no_sep)
  next
    case (Cons y ys')
    have "split c (joinWith [c] (x # ys) @ c # rest)
            = split c (x @ c # (joinWith [c] ys @ c # rest))"
      using Cons by simp
    also have "\<dots> = [x] @ split c (joinWith [c] ys @ c # rest)"
      using Cons.prems split_append_sep [of c x "joinWith [c] ys @ c # rest"]
      by (simp add: split_no_sep)
    also have "\<dots> = [x] @ ys @ split c rest"
      using Cons.IH Cons.prems Cons by simp
    finally show ?thesis by simp
  qed
qed

lemma dockerfileContent_lines:
  assumes "CHR 0x0A \<notin> set img" and "\<forall>v \<in> set vs. CHR 0x0A \<notin> set v"
  shows "split (CHR 0x0A) (dockerfileContent img vs)
           = [''FROM docker.io/'' @ img, []]
               @ (if vs = [] then [[]] else map addDirective vs) @ [[]]"
proof -
  define A where "A = ''FROM docker.io/'' @ img"
  define C where "C = joinWith [CHR 0x0A] (map addDirective vs) @ CHR 0x0A # []"
  have nl: "\<forall>d \<in> set (map addDirective vs). CHR 0x0A \<notin> set d"
    using assms(2) addDirective_no_newline by auto
  have fr: "CHR 0x0A \<notin> set A" using assms(1) by (simp add: A_def)
  have c: "split (CHR 0x0A) C = (if vs = [] then [[]] else map addDirective vs) @ [[]]"
    unfolding C_def using split_joinWith [OF nl, of "[]"] by simp
  have "dockerfileContent img vs = A @ CHR 0x0A # ([] @ CHR 0x0A # C)"
    by (simp add: dockerfileContent_def newline_def A_def C_def)
  then have "split (CHR 0x0A) (dockerfileContent img vs)
          = split (CHR 0x0A) A @ split (CHR 0x0A) ([] @ CHR 0x0A # C)"
    using split_append_sep [of "CHR 0x0A" A "[] @ CHR 0x0A # C"] by simp
  also have "\<dots> = [A] @ [[]] @ split (CHR 0x0A) C"
    using split_no_sep [OF fr] by simp
  finally show ?thesis using c by (simp add: A_def)
qed

lemma dockerfileContent_count:
  assumes "CHR 0x0A \<notin> set img" and "\<forall>v \<in> set vs. CHR 0x0A \<notin> set v"
  shows "length (filter (prefix ''ADD '') (split (CHR 0x0A) (dockerfileContent img vs))) = length vs"
proof -
  have "filter (prefix ''ADD '') (map addDirective vs) = map addDirective vs"
    by (simp add: addDirective_prefix)
  then show ?thesis
    using dockerfileContent_lines [OF assms] by simp
qed

subsection \<open>The registry-push variant\<close>

text \<open>
  C4 (amended). In registry-push (aws) mode, for a service with the volumes \<open>vs\<close>,
  \<open>resolveImage\<close> writes the build descriptor \<open>Dockerfile-{serviceName}\<close>: the line
  \<open>FROM docker.io/{image}\<close>, an empty line and one \<open>ADD\<close> line per volume, so
  exactly \<open>length vs\<close> lines that start with \<open>ADD\<close> (image and volumes without line
  breaks). It builds the image \<open>{repository}:{serviceName}\<close>, tags and pushes it as
  \<open>{registry}/{repository}:{serviceName}\<close>, and returns no volumes. The image it
  returns, which the service definition takes, is the local \<open>{repository}:{serviceName}\<close>,
  without the registry: the registry path is the push target only.
\<close>

theorem resolveImage_aws:
  assumes "aws params"
  shows "resolveImage params t td name img vs =
           ((repository @ '':'' @ name, None),
            WriteTextFile (joinPath t (''Dockerfile-'' @ name)) (dockerfileContent img vs)
              # map (\<lambda>v. Mkdir (joinPath td (hd (split (CHR '':'') v)))) vs
              @ [CreateImageUsingExec t (joinPath t (''Dockerfile-'' @ name)) (repository @ '':'' @ name),
                 Exec (''docker tag '' @ repository @ '':'' @ name @ '' ''
                         @ registry @ ''/'' @ repository @ '':'' @ name),
                 Exec (''docker push '' @ registry @ ''/'' @ repository @ '':'' @ name)])
         \<and> (CHR 0x0A \<notin> set img \<and> (\<forall>v \<in> set vs. CHR 0x0A \<notin> set v) \<longrightarrow>
               split (CHR 0x0A) (dockerfileContent img vs)
                 = [''FROM docker.io/'' @ img, []]
                     @ (if vs = [] then [[]] else map addDirective vs) @ [[]]
               \<and> length (filter (prefix ''ADD '') (split (CHR 0x0A) (dockerfileContent img vs)))
                   = length vs)
         \<and> volumes (databaseService usr d (fst (resolveImage params t td name img vs))) = None
         \<and> volumes (nodeService usr n (fst (resolveImage params t td name img vs))) = None
         \<and> volumes (brokerService usr n b
                        (nodeService usr n (fst (resolveImage params t td name img vs)))) = None
         \<and> volumes (gatewayService usr g (fst (resolveImage params t td name img vs))) = None
         \<and> svc_image (databaseService usr d (fst (resolveImage params t td name img vs)))
               = repository @ '':'' @ name
         \<and> svc_image (nodeService usr n (fst (resolveImage params t td name img vs)))
               = repository @ '':'' @ name
         \<and> svc_image (gatewayService usr g (fst (resolveImage params t td name img vs)))
               = repository @ '':'' @ name"
proof -
  have r: "resolveImage params t td name img vs =
           ((repository @ '':'' @ name, None),
            WriteTextFile (joinPath t (''Dockerfile-'' @ name)) (dockerfileContent img vs)
              # map (\<lambda>v. Mkdir (joinPath td (hd (split (CHR '':'') v)))) vs
              @ [CreateImageUsingExec t (joinPath t (''Dockerfile-'' @ name)) (repository @ '':'' @ name),
                 Exec (''docker tag '' @ repository @ '':'' @ name @ '' ''
                         @ registry @ ''/'' @ repository @ '':'' @ name),
                 Exec (''docker push '' @ registry @ ''/'' @ repository @ '':'' @ name)])"
    using assms
    by (simp add: resolveImage_def Let_def generatedImageName_def absoluteImageUrl_def)
  have c: "CHR 0x0A \<notin> set img \<and> (\<forall>v \<in> set vs. CHR 0x0A \<notin> set v) \<longrightarrow>
               split (CHR 0x0A) (dockerfileContent img vs)
                 = [''FROM docker.io/'' @ img, []]
                     @ (if vs = [] then [[]] else map addDirective vs) @ [[]]
               \<and> length (filter (prefix ''ADD '') (split (CHR 0x0A) (dockerfileContent img vs)))
                   = length vs"
    using dockerfileContent_count dockerfileContent_lines by blast
  have f: "fst (resolveImage params t td name img vs) = (repository @ '':'' @ name, None)"
    using r by simp
  have rest:
    "volumes (databaseService usr d (repository @ '':'' @ name, None)) = None
     \<and> volumes (nodeService usr n (repository @ '':'' @ name, None)) = None
     \<and> volumes (brokerService usr n b (nodeService usr n (repository @ '':'' @ name, None))) = None
     \<and> volumes (gatewayService usr g (repository @ '':'' @ name, None)) = None
     \<and> svc_image (databaseService usr d (repository @ '':'' @ name, None)) = repository @ '':'' @ name
     \<and> svc_image (nodeService usr n (repository @ '':'' @ name, None)) = repository @ '':'' @ name
     \<and> svc_image (gatewayService usr g (repository @ '':'' @ name, None)) = repository @ '':'' @ name"
    by (simp add: databaseService_def nodeService_def brokerService_def gatewayService_def)
  from r c rest show ?thesis
    unfolding f by blast
qed

theorem resolveImage_aws_witness:
  "fst (resolveImage \<lparr>target = ''target'', user = None, reset = False, aws = True\<rparr>
          ''/w/target'' ''/w/target/docker'' ''db-0'' ''mongo''
          [''./mongo:/userconfig/:ro'', ''../state:/state''])
     = (''nem-repository:db-0'', None)
   \<and> length (filter (prefix ''ADD '') (split (CHR 0x0A)
         (dockerfileContent ''mongo'' [''./mongo:/userconfig/:ro'', ''../state:/state''])))
       = 2
   \<and> Exec ''docker push 172617417348.dkr.ecr.us-east-1.amazonaws.com/nem-repository:db-0''
       \<in> set (snd (resolveImage \<lparr>target = ''target'', user = None, reset = False, aws = True\<rparr>
                  ''/w/target'' ''/w/target/docker'' ''db-0'' ''mongo''
                  [''./mongo:/userconfig/:ro'', ''../state:/state'']))"
proof -
  have a: "aws \<lparr>target = ''target'', user = None, reset = False, aws = True\<rparr>" by simp
  have nl: "CHR 0x0A \<notin> set ''mongo''
            \<and> (\<forall>v \<in> set [''./mongo:/userconfig/:ro'', ''../state:/state'']. CHR 0x0A \<notin> set v)"
    by simp
  show ?thesis
    using nl resolveImage_aws [OF a, of "''/w/target''" "''/w/target/docker''" "''db-0''"
            "''mongo''" "[''./mongo:/userconfig/:ro'', ''../state:/state'']"]
    by (simp add: repository_def registry_def addDirective_prefix)
qed

theorem resolveImage_image_counterexample:
  "svc_image
     (databaseService None \<lparr>db_name = ''db-0'', db_openPort = OpenPortUndefined\<rparr>
        (fst (resolveImage \<lparr>target = ''target'', user = None, reset = False, aws = True\<rparr>
                ''/w/target'' ''/w/target/docker'' ''db-0'' ''mongo''
                [''./mongo:/userconfig/:ro'', ''../state:/state''])))
     \<noteq> registry @ ''/'' @ repository @ '':'' @ ''db-0''"
  by (simp add: resolveImage_def Let_def databaseService_def generatedImageName_def
        repository_def registry_def)

subsection \<open>Steps and frames of the service record\<close>

lemma map_of_servicesOf:
  "map_of (servicesOf st) k = map_option (\<lambda>a. heap st ! a) (map_of (services st) k)"
  by (simp add: servicesOf_def map_of_map)

lemma refsValid_lookup:
  "refsValid st \<Longrightarrow> map_of (services st) k = Some a \<Longrightarrow> a < length (heap st)"
  by (auto simp: refsValid_def list_all_iff dest!: map_of_SomeD)

lemma set_update_subset: "set (AList.update k a xs) \<subseteq> insert (k, a) (set xs)"
  by (induction xs) auto

lemma refsValid_update:
  assumes "refsValid st" and "length (heap st) \<le> length h" and "a < length h"
  shows "refsValid (st\<lparr>heap := h, services := AList.update k a (services st)\<rparr>)"
  using assms set_update_subset [of k a "services st"]
  by (fastforce simp: refsValid_def list_all_iff)

text \<open>What one step does to the heap and to the record of references.\<close>

lemma databaseStep_heap:
  "heap (databaseStep env params pd t td usr st n) =
     heap st @ [databaseService usr n
                 (fst (resolveImage params t td (db_name n) (mongoImage pd) databaseVolumes))]"
  by (simp add: databaseStep_def split: prod.splits)

lemma databaseStep_services:
  "services (databaseStep env params pd t td usr st n) =
     AList.update (db_name n) (length (heap st)) (services st)"
  by (simp add: databaseStep_def split: prod.splits)

lemma gatewayStep_heap:
  "heap (gatewayStep env params pd t td usr st n) =
     heap st @ [gatewayService usr n
                 (fst (resolveImage params t td (gw_name n) (symbolRestImage pd) (gatewayVolumes env n)))]"
  by (simp add: gatewayStep_def split: prod.splits)

lemma gatewayStep_services:
  "services (gatewayStep env params pd t td usr st n) =
     AList.update (gw_name n) (length (heap st)) (services st)"
  by (simp add: gatewayStep_def split: prod.splits)

lemma nodeStep_heap:
  "heap (nodeStep env params pd t td usr st n) =
     (let s1 = dependingOnDatabase usr n
                 (fst (resolveImage params t td (node_name n) (symbolServerImage pd) (nodeVolumes env n)))
      in heap st @ (if declared (brokerHost n)
                    then [pushDependsOn (the (brokerHost n)) s1,
                          brokerService usr n (the (brokerHost n)) s1]
                    else [s1]))"
  by (simp add: nodeStep_def dependingOnDatabase_def Let_def nth_append list_update_append
      split: prod.splits)

lemma nodeStep_services:
  "services (nodeStep env params pd t td usr st n) =
     (if declared (brokerHost n)
      then AList.update (the (brokerHost n)) (Suc (length (heap st)))
             (AList.update (node_name n) (length (heap st)) (services st))
      else AList.update (node_name n) (length (heap st)) (services st))"
  by (simp add: nodeStep_def Let_def split: prod.splits)

lemma refsValid_databaseStep:
  "refsValid st \<Longrightarrow> refsValid (databaseStep env params pd t td usr st n)"
  using set_update_subset [of "db_name n" "length (heap st)" "services st"]
  by (fastforce simp: refsValid_def list_all_iff databaseStep_heap databaseStep_services)

lemma refsValid_gatewayStep:
  "refsValid st \<Longrightarrow> refsValid (gatewayStep env params pd t td usr st n)"
  using set_update_subset [of "gw_name n" "length (heap st)" "services st"]
  by (fastforce simp: refsValid_def list_all_iff gatewayStep_heap gatewayStep_services)

lemma refsValid_nodeStep:
  assumes "refsValid st"
  shows "refsValid (nodeStep env params pd t td usr st n)"
proof -
  let ?a = "length (heap st)"
  let ?s1 = "AList.update (node_name n) ?a (services st)"
  have s1: "set ?s1 \<subseteq> insert (node_name n, ?a) (set (services st))"
    by (rule set_update_subset)
  have s2: "set (AList.update (the (brokerHost n)) (Suc ?a) ?s1)
              \<subseteq> insert (the (brokerHost n), Suc ?a) (set ?s1)"
    by (rule set_update_subset)
  show ?thesis
    using assms s1 s2
    by (fastforce simp: refsValid_def list_all_iff nodeStep_heap nodeStep_services Let_def)
qed

lemma foldl_frame:
  fixes f :: "ComposeState \<Rightarrow> 'a \<Rightarrow> ComposeState" and keys :: "'a \<Rightarrow> string list"
  assumes grow: "\<And>st x. \<exists>new. heap (f st x) = heap st @ new"
    and keep: "\<And>st x k. k \<notin> set (keys x)
                 \<Longrightarrow> map_of (services (f st x)) k = map_of (services st) k"
    and valid: "\<And>st x. refsValid st \<Longrightarrow> refsValid (f st x)"
  shows "refsValid st \<Longrightarrow>
           refsValid (foldl f st xs)
           \<and> (k \<notin> \<Union> (set ` keys ` set xs)
                \<longrightarrow> map_of (servicesOf (foldl f st xs)) k = map_of (servicesOf st) k)"
proof (induction xs arbitrary: st)
  case Nil
  then show ?case by simp
next
  case (Cons x xs)
  have v: "refsValid (f st x)" using Cons.prems valid by blast
  have one: "map_of (servicesOf (f st x)) k = map_of (servicesOf st) k" if "k \<notin> set (keys x)"
  proof -
    obtain new where new: "heap (f st x) = heap st @ new" using grow by blast
    have same: "map_of (services (f st x)) k = map_of (services st) k" using keep that by blast
    show ?thesis
    proof (cases "map_of (services st) k")
      case None
      then show ?thesis using same by (simp add: map_of_servicesOf)
    next
      case (Some a)
      then have "a < length (heap st)" using Cons.prems refsValid_lookup by blast
      then show ?thesis using same Some new by (simp add: map_of_servicesOf nth_append)
    qed
  qed
  show ?case using Cons.IH [OF v] one by auto
qed

lemma databases_frame:
  "refsValid st \<Longrightarrow>
     refsValid (foldl (databaseStep env params pd t td usr) st xs)
     \<and> (k \<notin> set (map db_name xs)
          \<longrightarrow> map_of (servicesOf (foldl (databaseStep env params pd t td usr) st xs)) k
                = map_of (servicesOf st) k)"
  using foldl_frame [of "databaseStep env params pd t td usr" "\<lambda>n. [db_name n]" st xs k]
  by (auto simp: databaseStep_heap databaseStep_services update_conv' refsValid_databaseStep)

lemma gateways_frame:
  "refsValid st \<Longrightarrow>
     refsValid (foldl (gatewayStep env params pd t td usr) st xs)
     \<and> (k \<notin> set (map gw_name xs)
          \<longrightarrow> map_of (servicesOf (foldl (gatewayStep env params pd t td usr) st xs)) k
                = map_of (servicesOf st) k)"
  using foldl_frame [of "gatewayStep env params pd t td usr" "\<lambda>n. [gw_name n]" st xs k]
  by (auto simp: gatewayStep_heap gatewayStep_services update_conv' refsValid_gatewayStep)

lemma nodes_frame:
  "refsValid st \<Longrightarrow>
     refsValid (foldl (nodeStep env params pd t td usr) st xs)
     \<and> (k \<notin> set (concat (map nodeKeys xs))
          \<longrightarrow> map_of (servicesOf (foldl (nodeStep env params pd t td usr) st xs)) k
                = map_of (servicesOf st) k)"
  using foldl_frame [of "nodeStep env params pd t td usr" nodeKeys st xs k]
  by (auto simp: nodeStep_heap nodeStep_services update_conv' refsValid_nodeStep nodeKeys_def Let_def)

subsection \<open>The services of a node entry\<close>

lemma nodeStep_broker_lookup:
  assumes "declared (brokerHost n)"
  shows "map_of (servicesOf (nodeStep env params pd t td usr st n)) (the (brokerHost n)) =
           Some (brokerService usr n (the (brokerHost n))
                   (dependingOnDatabase usr n
                      (fst (resolveImage params t td (node_name n) (symbolServerImage pd)
                              (nodeVolumes env n)))))"
  using assms
  by (simp add: map_of_servicesOf nodeStep_heap nodeStep_services update_conv' Let_def nth_append)

lemma nodeStep_node_lookup:
  assumes "declared (brokerHost n)" and "node_name n \<noteq> the (brokerHost n)"
  shows "map_of (servicesOf (nodeStep env params pd t td usr st n)) (node_name n) =
           Some (pushDependsOn (the (brokerHost n))
                   (dependingOnDatabase usr n
                      (fst (resolveImage params t td (node_name n) (symbolServerImage pd)
                              (nodeVolumes env n)))))"
  using assms
  by (simp add: map_of_servicesOf nodeStep_heap nodeStep_services update_conv' Let_def nth_append)

lemma command_lengths:
  "length (command (brokerService usr n b s)) = 103 + 2 * length b"
  "length (command (nodeService usr n info)) = 104 + 2 * length (node_name n)"
  by (simp_all add: brokerService_def nodeService_def)

lemma broker_command_own:
  "command (brokerService usr n b s) \<noteq> command (dependingOnDatabase usr n info)"
proof -
  have "command (dependingOnDatabase usr n info) = command (nodeService usr n info)"
    by (simp add: dependingOnDatabase_def pushDependsOn_def)
  moreover have "length (command (brokerService usr n b s)) \<noteq> length (command (nodeService usr n info))"
    unfolding command_lengths by presburger
  ultimately show ?thesis by metis
qed

lemma refsValid_init: "refsValid \<lparr>heap = [], services = [], effects = []\<rparr>"
  by (simp add: refsValid_def)

lemma buildServices_folds:
  "buildServices env params pd t td usr =
     foldl (gatewayStep env params pd t td usr)
       (foldl (nodeStep env params pd t td usr)
          (foldl (databaseStep env params pd t td usr)
             \<lparr>heap = [], services = [], effects = []\<rparr> (orEmpty (databases pd)))
          (orEmpty (nodes pd)))
       (orEmpty (gateways pd))"
  by (simp add: buildServices_def Let_def)

lemma node_in_build:
  assumes ns: "orEmpty (nodes pd) = pre @ n # post"
    and fresh: "k \<notin> set (concat (map nodeKeys post))"
               "k \<notin> set (map gw_name (orEmpty (gateways pd)))"
  shows "map_of (servicesOf (buildServices env params pd t td usr)) k =
           map_of (servicesOf
             (nodeStep env params pd t td usr
                (foldl (nodeStep env params pd t td usr)
                   (foldl (databaseStep env params pd t td usr)
                      \<lparr>heap = [], services = [], effects = []\<rparr> (orEmpty (databases pd)))
                   pre) n)) k"
proof -
  let ?st1 = "foldl (databaseStep env params pd t td usr)
                \<lparr>heap = [], services = [], effects = []\<rparr> (orEmpty (databases pd))"
  let ?stp = "foldl (nodeStep env params pd t td usr) ?st1 pre"
  let ?stn = "nodeStep env params pd t td usr ?stp n"
  let ?st2 = "foldl (nodeStep env params pd t td usr) ?stn post"
  have v1: "refsValid ?st1" using databases_frame [OF refsValid_init] by blast
  have vp: "refsValid ?stp" using nodes_frame [OF v1] by blast
  have vn: "refsValid ?stn" using refsValid_nodeStep [OF vp] .
  have v2: "refsValid ?st2" using nodes_frame [OF vn] by blast
  have a: "map_of (servicesOf ?st2) k = map_of (servicesOf ?stn) k"
    using nodes_frame [OF vn, of env params pd t td usr post k] fresh(1) by blast
  have b: "map_of (servicesOf (foldl (gatewayStep env params pd t td usr) ?st2
                                (orEmpty (gateways pd)))) k
             = map_of (servicesOf ?st2) k"
    using gateways_frame [OF v2, of env params pd t td usr "orEmpty (gateways pd)" k] fresh(2)
    by blast
  have "buildServices env params pd t td usr
          = foldl (gatewayStep env params pd t td usr) ?st2 (orEmpty (gateways pd))"
    by (simp add: buildServices_folds ns)
  then show ?thesis using a b by simp
qed

lemma gateways_address:
  assumes "refsValid st" and "g \<in> set gs"
  shows "map_option networks
           (map_of (servicesOf (foldl (gatewayStep env params pd t td usr) st gs)) (gw_name g))
         = Some (Some ''172.20.0.10'')"
  using assms(2)
proof (induction gs rule: rev_induct)
  case Nil
  then show ?case by simp
next
  case (snoc x xs)
  let ?st = "foldl (gatewayStep env params pd t td usr) st xs"
  have v: "refsValid ?st" using gateways_frame [OF assms(1)] by blast
  show ?case
  proof (cases "gw_name g = gw_name x")
    case True
    then show ?thesis
      by (simp add: map_of_servicesOf gatewayStep_heap gatewayStep_services update_conv'
            gatewayService_def)
  next
    case False
    then have "g \<in> set xs" using snoc.prems by auto
    moreover have "map_of (servicesOf (gatewayStep env params pd t td usr ?st x)) (gw_name g)
                     = map_of (servicesOf ?st) (gw_name g)"
      using gateways_frame [OF v, of env params pd t td usr "[x]" "gw_name g"] False by simp
    ultimately show ?thesis using snoc.IH by simp
  qed
qed

lemma foldl_invariant:
  assumes "P st" and "\<And>st x. P st \<Longrightarrow> P (f st x)"
  shows "P (foldl f st xs)"
  using assms(1) by (induction xs arbitrary: st) (auto intro: assms(2))

lemma servicesOf_keys: "map fst (servicesOf st) = map fst (services st)"
  by (simp add: servicesOf_def case_prod_beta)

lemma buildServices_distinct:
  "distinct (map fst (servicesOf (buildServices env params pd t td usr)))"
proof -
  let ?P = "\<lambda>st. distinct (map fst (services st))"
  have d: "\<And>st x. ?P st \<Longrightarrow> ?P (databaseStep env params pd t td usr st x)"
    by (simp add: databaseStep_services distinct_update)
  have n: "\<And>st x. ?P st \<Longrightarrow> ?P (nodeStep env params pd t td usr st x)"
    by (simp add: nodeStep_services distinct_update)
  have g: "\<And>st x. ?P st \<Longrightarrow> ?P (gatewayStep env params pd t td usr st x)"
    by (simp add: gatewayStep_services distinct_update)
  have "?P \<lparr>heap = [], services = [], effects = []\<rparr>" by simp
  then have "?P (foldl (databaseStep env params pd t td usr)
                  \<lparr>heap = [], services = [], effects = []\<rparr> (orEmpty (databases pd)))"
    using d by (rule foldl_invariant)
  then have "?P (foldl (nodeStep env params pd t td usr)
                  (foldl (databaseStep env params pd t td usr)
                     \<lparr>heap = [], services = [], effects = []\<rparr> (orEmpty (databases pd)))
                  (orEmpty (nodes pd)))"
    using n by (rule foldl_invariant)
  then have "?P (buildServices env params pd t td usr)"
    unfolding buildServices_folds using g by (rule foldl_invariant)
  then show ?thesis by (simp add: servicesOf_keys)
qed

lemma two_keys:
  assumes "distinct ks" and "a \<in> set ks" and "b \<in> set ks" and "a \<noteq> b"
  shows "length (filter (\<lambda>k. k \<in> set [a, b]) ks) = 2"
proof -
  have "{k. k \<in> set [a, b]} \<inter> set ks = {a, b}" using assms(2,3) by auto
  then have "length (filter (\<lambda>k. k \<in> set [a, b]) ks) = card {a, b}"
    using distinct_length_filter [OF assms(1), of "\<lambda>k. k \<in> set [a, b]"] by simp
  then show ?thesis using assms(4) by simp
qed

subsection \<open>A node with a database host and a broker host\<close>

text \<open>
  C6 (amended). For every node entry that declares both a database host and a broker
  host, in a preset whose node names, broker host names and gateway names are pairwise
  distinct, the compiled topology holds exactly two services under the names of that
  entry, the node service and the broker service, and the dependency list of the node
  service is the database host followed by the broker host.
\<close>

theorem node_database_broker_services:
  assumes "n \<in> set (orEmpty (nodes pd))"
    and "distinct (concat (map nodeKeys (orEmpty (nodes pd)))
                     @ map gw_name (orEmpty (gateways pd)))"
    and "databaseHost n = Some db" and "db \<noteq> []"
    and "brokerHost n = Some b" and "b \<noteq> []"
  shows "nodeKeys n = [node_name n, b]
         \<and> length (filter (\<lambda>k. k \<in> set (nodeKeys n))
                     (map fst (servicesOf (buildServices env params pd t td usr)))) = 2
         \<and> map_option depends_on
               (map_of (servicesOf (buildServices env params pd t td usr)) (node_name n))
             = Some (Some [db, b])
         \<and> map_of (servicesOf (buildServices env params pd t td usr)) (node_name n)
             = Some ((nodeService usr n
                        (fst (resolveImage params t td (node_name n) (symbolServerImage pd)
                                (nodeVolumes env n))))
                       \<lparr>depends_on := Some [db, b]\<rparr>)
         \<and> map_of (servicesOf (buildServices env params pd t td usr)) b
             = Some (brokerService usr n b
                       (nodeService usr n
                          (fst (resolveImage params t td (node_name n) (symbolServerImage pd)
                                  (nodeVolumes env n)))))"
proof -
  let ?final = "servicesOf (buildServices env params pd t td usr)"
  let ?info = "fst (resolveImage params t td (node_name n) (symbolServerImage pd)
                      (nodeVolumes env n))"
  obtain pre post where ns: "orEmpty (nodes pd) = pre @ n # post"
    using assms(1) by (meson split_list)
  have keys: "nodeKeys n = [node_name n, b]" using assms(5,6) by (simp add: nodeKeys_def)
  have dn: "distinct (nodeKeys n)"
    and fp: "set (nodeKeys n) \<inter> set (concat (map nodeKeys post)) = {}"
    and fg: "set (nodeKeys n) \<inter> set (map gw_name (orEmpty (gateways pd))) = {}"
    using assms(2) unfolding ns by auto
  have ne: "node_name n \<noteq> b" using dn keys by simp
  have decl: "declared (brokerHost n)" "the (brokerHost n) = b"
    "declared (databaseHost n)" "the (databaseHost n) = db"
    using assms(3-6) by simp_all
  have s1: "dependingOnDatabase usr n ?info = pushDependsOn db (nodeService usr n ?info)"
    using decl by (simp add: dependingOnDatabase_def)
  have ln: "map_of ?final (node_name n) = Some (pushDependsOn b (pushDependsOn db (nodeService usr n ?info)))"
    using node_in_build [OF ns, of "node_name n" env params t td usr] fp fg keys
      nodeStep_node_lookup [of n env params pd t td usr] decl ne s1
    by simp
  have lb: "map_of ?final b = Some (brokerService usr n b (pushDependsOn db (nodeService usr n ?info)))"
    using node_in_build [OF ns, of b env params t td usr] fp fg keys
      nodeStep_broker_lookup [of n env params pd t td usr] decl s1
    by simp
  have push: "pushDependsOn b (pushDependsOn db (nodeService usr n ?info))
                = (nodeService usr n ?info)\<lparr>depends_on := Some [db, b]\<rparr>"
    by (simp add: pushDependsOn_def nodeService_def)
  have brk: "brokerService usr n b (pushDependsOn db (nodeService usr n ?info))
               = brokerService usr n b (nodeService usr n ?info)"
    by (simp add: brokerService_def pushDependsOn_def)
  have "node_name n \<in> set (map fst ?final)" "b \<in> set (map fst ?final)"
    using ln lb by (auto dest!: map_of_SomeD intro: rev_image_eqI)
  then have two: "length (filter (\<lambda>k. k \<in> set (nodeKeys n)) (map fst ?final)) = 2"
    unfolding keys using two_keys [OF buildServices_distinct _ _ ne] by blast
  show ?thesis using keys two ln lb push brk by simp
qed

theorem node_database_broker_services_witness:
  "exampleNode \<in> set (orEmpty (nodes examplePreset))
   \<and> distinct (concat (map nodeKeys (orEmpty (nodes examplePreset)))
                 @ map gw_name (orEmpty (gateways examplePreset)))
   \<and> length (filter (\<lambda>k. k \<in> set (nodeKeys exampleNode))
         (map fst (servicesOf (buildServices exampleEnv exampleParams examplePreset
                                 ''/work/target'' ''/work/target/docker'' None)))) = 2
   \<and> map_option depends_on
         (map_of (servicesOf (buildServices exampleEnv exampleParams examplePreset
                                ''/work/target'' ''/work/target/docker'' None)) ''api-node-0'')
       = Some (Some [''db-0'', ''api-node-broker-0''])"
proof -
  have n: "exampleNode \<in> set (orEmpty (nodes examplePreset))"
    by (simp add: examplePreset_def)
  have d: "distinct (concat (map nodeKeys (orEmpty (nodes examplePreset)))
                      @ map gw_name (orEmpty (gateways examplePreset)))"
    by (simp add: examplePreset_def exampleNode_def nodeKeys_def)
  have h: "databaseHost exampleNode = Some ''db-0''" "''db-0'' \<noteq> []"
    "brokerHost exampleNode = Some ''api-node-broker-0''" "''api-node-broker-0'' \<noteq> []"
    by (simp_all add: exampleNode_def)
  have nm: "node_name exampleNode = ''api-node-0''" by (simp add: exampleNode_def)
  show ?thesis
    using n d
      node_database_broker_services [OF n d h, of exampleEnv exampleParams
        "''/work/target''" "''/work/target/docker''" None]
    unfolding nm by blast
qed

text \<open>
  As stated, for every node entry, the claim fails: when the broker host of an entry is
  the entry's own name, the broker service replaces the node service under that name.
  The topology then has one service for the entry, and it has no dependency list.
\<close>

theorem self_broker_counterexample:
  "map fst (servicesOf (buildServices exampleEnv exampleParams selfBrokerPreset
                          ''/work/target'' ''/work/target/docker'' None)) = [''api-node-0'']
   \<and> map_option depends_on
         (map_of (servicesOf (buildServices exampleEnv exampleParams selfBrokerPreset
                                ''/work/target'' ''/work/target/docker'' None)) ''api-node-0'')
       = Some None"
  by (simp add: buildServices_folds selfBrokerPreset_def examplePreset_def exampleNode_def
        servicesOf_keys map_of_servicesOf nodeStep_heap nodeStep_services brokerService_def
        Let_def)

subsection \<open>The broker service\<close>

text \<open>
  C7 (amended). For every node that declares a broker host, the callback stores under
  the broker host a service with the image and the volumes of the node service, the
  \<open>startBroker.sh\<close> command (never the node's command), the port 7902 resolved from
  \<open>openBrokerPort\<close>, and no dependency list. The dependency edge runs the other way:
  the broker host is appended to the dependency list of the node service, after the
  database host when one is declared.
\<close>

theorem broker_service:
  assumes "declared (brokerHost n)"
  shows
    \<open>map_of (servicesOf (nodeStep env params pd t td usr st n)) (the (brokerHost n))
       = Some (brokerService usr n (the (brokerHost n))
                 (dependingOnDatabase usr n
                    (fst (resolveImage params t td (node_name n) (symbolServerImage pd)
                            (nodeVolumes env n)))))
     \<and> svc_image (brokerService usr n b s) = svc_image s
     \<and> volumes (brokerService usr n b s) = volumes s
     \<and> command (brokerService usr n b s)
         = ''bash -c "/bin/bash /symbol-commands/runServerRecover.sh '' @ b
             @ '' && /bin/bash /symbol-commands/startBroker.sh '' @ b @ ''"''
     \<and> command (brokerService usr n b s) \<noteq> command (dependingOnDatabase usr n info)
     \<and> ports (brokerService usr n b s) = resolvePorts 7902 (openBrokerPort n)
     \<and> depends_on (brokerService usr n b s) = None
     \<and> (node_name n \<noteq> the (brokerHost n) \<longrightarrow>
          map_of (servicesOf (nodeStep env params pd t td usr st n)) (node_name n)
            = Some (pushDependsOn (the (brokerHost n))
                      (dependingOnDatabase usr n
                         (fst (resolveImage params t td (node_name n) (symbolServerImage pd)
                                 (nodeVolumes env n))))))
     \<and> depends_on (pushDependsOn (the (brokerHost n)) (dependingOnDatabase usr n info))
         = Some ((if declared (databaseHost n) then [the (databaseHost n)] else [])
                   @ [the (brokerHost n)])\<close>
proof -
  have fields:
    \<open>svc_image (brokerService usr n b s) = svc_image s
     \<and> volumes (brokerService usr n b s) = volumes s
     \<and> command (brokerService usr n b s)
         = ''bash -c "/bin/bash /symbol-commands/runServerRecover.sh '' @ b
             @ '' && /bin/bash /symbol-commands/startBroker.sh '' @ b @ ''"''
     \<and> ports (brokerService usr n b s) = resolvePorts 7902 (openBrokerPort n)
     \<and> depends_on (brokerService usr n b s) = None\<close>
    by (simp add: brokerService_def)
  have deps:
    "depends_on (pushDependsOn (the (brokerHost n)) (dependingOnDatabase usr n info))
       = Some ((if declared (databaseHost n) then [the (databaseHost n)] else [])
                 @ [the (brokerHost n)])"
    by (simp add: pushDependsOn_def dependingOnDatabase_def nodeService_def)
  show ?thesis
    using nodeStep_broker_lookup [OF assms, of env params pd t td usr st]
      nodeStep_node_lookup [OF assms, of env params pd t td usr st]
      broker_command_own [of usr n b s info] fields deps
    by blast
qed

theorem broker_service_witness:
  "declared (brokerHost exampleNode)
   \<and> map_option depends_on
         (map_of (servicesOf (nodeStep exampleEnv exampleParams examplePreset
                                ''/work/target'' ''/work/target/docker'' None
                                \<lparr>heap = [], services = [], effects = []\<rparr> exampleNode))
            ''api-node-broker-0'')
       = Some None
   \<and> map_option depends_on
         (map_of (servicesOf (nodeStep exampleEnv exampleParams examplePreset
                                ''/work/target'' ''/work/target/docker'' None
                                \<lparr>heap = [], services = [], effects = []\<rparr> exampleNode))
            ''api-node-0'')
       = Some (Some [''db-0'', ''api-node-broker-0''])"
proof -
  have d: "declared (brokerHost exampleNode)" by (simp add: exampleNode_def)
  have v: "the (brokerHost exampleNode) = ''api-node-broker-0''"
    "node_name exampleNode = ''api-node-0''"
    "declared (databaseHost exampleNode)" "the (databaseHost exampleNode) = ''db-0''"
    by (simp_all add: exampleNode_def)
  show ?thesis
    using d broker_service [OF d, of exampleEnv exampleParams examplePreset
            "''/work/target''" "''/work/target/docker''" None
            "\<lparr>heap = [], services = [], effects = []\<rparr>"
            "''api-node-broker-0''"
            "dependingOnDatabase None exampleNode
               (fst (resolveImage exampleParams ''/work/target'' ''/work/target/docker''
                       (node_name exampleNode) (symbolServerImage examplePreset)
                       (nodeVolumes exampleEnv exampleNode)))"
            "fst (resolveImage exampleParams ''/work/target'' ''/work/target/docker''
                       (node_name exampleNode) (symbolServerImage examplePreset)
                       (nodeVolumes exampleEnv exampleNode))"]
    unfolding v by (simp add: v)
qed

text \<open>
  As stated the claim fails: the broker service of the example preset carries no
  dependency list, so no edge back to the node service.
\<close>

theorem broker_dependency_counterexample:
  "map_option depends_on
     (map_of (servicesOf (buildServices exampleEnv exampleParams examplePreset
                            ''/work/target'' ''/work/target/docker'' None))
        ''api-node-broker-0'')
     = Some None"
  by (simp add: buildServices_folds examplePreset_def exampleNode_def map_of_servicesOf
        databaseStep_heap databaseStep_services nodeStep_heap nodeStep_services
        gatewayStep_heap gatewayStep_services brokerService_def Let_def)

subsection \<open>The static address of the gateways\<close>

lemma gateway_in_build:
  assumes "g \<in> set (orEmpty (gateways pd))"
  shows "map_option networks
           (map_of (servicesOf (buildServices env params pd t td usr)) (gw_name g))
         = Some (Some ''172.20.0.10'')"
proof -
  let ?st1 = "foldl (databaseStep env params pd t td usr)
                \<lparr>heap = [], services = [], effects = []\<rparr> (orEmpty (databases pd))"
  let ?st2 = "foldl (nodeStep env params pd t td usr) ?st1 (orEmpty (nodes pd))"
  have v1: "refsValid ?st1" using databases_frame [OF refsValid_init] by blast
  have v2: "refsValid ?st2" using nodes_frame [OF v1] by blast
  show ?thesis
    unfolding buildServices_folds using gateways_address [OF v2 assms] .
qed

text \<open>
  C10. Every gateway entry of the preset has, under its name, a service of the compiled
  topology whose address on the default network is the fixed \<open>172.20.0.10\<close>. Two
  gateways with different names are therefore two services of the topology with the
  same static address.
\<close>

theorem gateways_share_static_address:
  "(\<forall>g \<in> set (orEmpty (gateways pd)).
      map_option networks
        (map_of (servicesOf (buildServices env params pd t td usr)) (gw_name g))
      = Some (Some ''172.20.0.10''))
   \<and> networks (gatewayService usr g info) = Some ''172.20.0.10''
   \<and> (g1 \<in> set (orEmpty (gateways pd)) \<and> g2 \<in> set (orEmpty (gateways pd))
        \<and> gw_name g1 \<noteq> gw_name g2 \<longrightarrow>
        map_option networks
          (map_of (servicesOf (buildServices env params pd t td usr)) (gw_name g1))
        = map_option networks
            (map_of (servicesOf (buildServices env params pd t td usr)) (gw_name g2))
        \<and> map_of (servicesOf (buildServices env params pd t td usr)) (gw_name g1) \<noteq> None
        \<and> map_of (servicesOf (buildServices env params pd t td usr)) (gw_name g2) \<noteq> None)"
proof -
  have a: "\<forall>g \<in> set (orEmpty (gateways pd)).
      map_option networks
        (map_of (servicesOf (buildServices env params pd t td usr)) (gw_name g))
      = Some (Some ''172.20.0.10'')"
    using gateway_in_build by blast
  have b: "networks (gatewayService usr g info) = Some ''172.20.0.10''"
    by (simp add: gatewayService_def)
  from a b show ?thesis by (auto simp del: map_option_eq_Some)
qed

theorem gateways_share_static_address_witness:
  "map_option networks
     (map_of (servicesOf (buildServices exampleEnv exampleParams examplePreset
                            ''/work/target'' ''/work/target/docker'' None)) ''rest-gateway-0'')
     = Some (Some ''172.20.0.10'')
   \<and> map_option networks
     (map_of (servicesOf (buildServices exampleEnv exampleParams examplePreset
                            ''/work/target'' ''/work/target/docker'' None)) ''rest-gateway-1'')
     = Some (Some ''172.20.0.10'')"
  using gateways_share_static_address [of examplePreset exampleEnv exampleParams
          "''/work/target''" "''/work/target/docker''" None]
  by (simp add: examplePreset_def)

subsection \<open>The run and the existing topology\<close>

text \<open>What a run writes when it does not stop early.\<close>

lemma run_compiles:
  assumes "joinPath (joinPath (joinPath (currentDir env) (target params)) ''docker'')
             ''docker-compose.yml''
           \<notin> set (if reset params
                    then deleteFolder
                           (joinPath (joinPath (currentDir env) (target params)) ''docker'') fs
                    else fs)"
  shows "\<exists>es1 es2.
           run env params pd fs =
             (joinPath (joinPath (joinPath (currentDir env) (target params)) ''docker'')
                ''docker-compose.yml'',
              es1 @ [WriteYaml
                       (joinPath (joinPath (joinPath (currentDir env) (target params)) ''docker'')
                          ''docker-compose.yml'')
                       \<lparr>version = ''3'', subnet = ''172.20.0.0/24'',
                          compose_services =
                            servicesOf
                              (buildServices env params pd
                                 (joinPath (currentDir env) (target params))
                                 (joinPath (joinPath (currentDir env) (target params)) ''docker'')
                                 (if aws params then None else resolveUser env params))\<rparr>]
                  @ es2)"
  using assms by (simp add: run_def Let_def) (metis append.assoc append_Cons append_Nil)

text \<open>After a reset the topology document is never found, so the run compiles.\<close>

lemma run_reset_recompiles:
  "joinPath (joinPath (joinPath (currentDir env) (target params)) ''docker'')
     ''docker-compose.yml''
   \<notin> set (deleteFolder (joinPath (joinPath (currentDir env) (target params)) ''docker'') fs)"
  by (simp add: deleteFolder_def joinPath_def)

text \<open>
  C8. If \<open>docker-compose.yml\<close> exists under the docker folder of the target and no
  reset is requested, the run returns the location of that file as a normal result; its
  only effect is the information logged. Nothing is created, built or written.
\<close>

theorem run_reuses_existing_topology:
  assumes "joinPath (joinPath (joinPath (currentDir env) (target params)) ''docker'')
             ''docker-compose.yml'' \<in> set fs"
    and "\<not> reset params"
  shows "run env params pd fs =
           (joinPath (joinPath (joinPath (currentDir env) (target params)) ''docker'')
              ''docker-compose.yml'',
            [LogInfo (joinPath (joinPath (joinPath (currentDir env) (target params)) ''docker'')
                        ''docker-compose.yml'' @ '' already exist. Reusing. (run -r to reset)'')])"
  using assms by (simp add: run_def Let_def)

theorem run_reuses_existing_topology_witness:
  "''/work/target/docker/docker-compose.yml'' \<in> set [''/work/target/docker/docker-compose.yml'']
   \<and> \<not> reset exampleParams
   \<and> run exampleEnv exampleParams examplePreset [''/work/target/docker/docker-compose.yml'']
       = (''/work/target/docker/docker-compose.yml'',
          [LogInfo ''/work/target/docker/docker-compose.yml already exist. Reusing. (run -r to reset)''])"
proof -
  have p: "joinPath (joinPath (joinPath (currentDir exampleEnv) (target exampleParams)) ''docker'')
             ''docker-compose.yml'' = ''/work/target/docker/docker-compose.yml''"
    by (simp add: joinPath_def exampleEnv_def exampleParams_def)
  have r: "\<not> reset exampleParams" by (simp add: exampleParams_def)
  have m: "joinPath (joinPath (joinPath (currentDir exampleEnv) (target exampleParams)) ''docker'')
             ''docker-compose.yml'' \<in> set [''/work/target/docker/docker-compose.yml'']"
    unfolding p by simp
  show ?thesis
    using r run_reuses_existing_topology [OF m r, of examplePreset]
    unfolding p by simp
qed

section \<open>Exact arithmetic below \<open>2^53\<close>\<close>





lemma toNumber_exact: "\<bar>x\<bar> < 2 ^ 53 \<Longrightarrow> toNumber x = Num x"
proof -
  assume a: "\<bar>x\<bar> < 2 ^ 53"
  have "(2::int) ^ 53 \<le> 2 ^ 1024" by (rule power_increasing) simp_all
  then have "x < 2 ^ 1024" "- (2 ^ 1024) < x" using a by linarith+
  then show ?thesis using a by (simp add: toNumber_def roundInt_def Let_def)
qed

lemma addD_exact: "\<bar>a + b\<bar> < 2 ^ 53 \<Longrightarrow> addD (Num a) (Num b) = Num (a + b)"
  by (simp add: toNumber_exact)

lemma subD_exact: "\<bar>a - b\<bar> < 2 ^ 53 \<Longrightarrow> subD (Num a) (Num b) = Num (a - b)"
  by (simp add: subD_def toNumber_exact)



lemma foldl_addD_exact:
  "\<bar>acc\<bar> + sum_list (map abs xs) < 2 ^ 53
     \<Longrightarrow> foldl addD (Num acc) (map Num xs) = Num (acc + sum_list xs)"
proof (induction xs arbitrary: acc)
  case Nil
  show ?case by simp
next
  case (Cons x xs)
  have nn: "0 \<le> sum_list (map abs xs)" by (induction xs) auto
  have "\<bar>acc + x\<bar> < 2 ^ 53" using Cons.prems nn by simp
  moreover have "\<bar>acc + x\<bar> + sum_list (map abs xs) < 2 ^ 53" using Cons.prems by simp
  ultimately show ?case using Cons.IH [of "acc + x"] by (simp add: toNumber_exact add.assoc)
qed

lemma sumD_exact:
  "sum_list (map abs xs) < 2 ^ 53 \<Longrightarrow> sumD (map Num xs) = Num (sum_list xs)"
  using foldl_addD_exact [of 0 xs] by (simp add: sumD_def)

section \<open>Properties of the genesis ledger\<close>

subsection \<open>The generated distribution\<close>


















text \<open>
  The other conditions of the amended claim are needed as well. With two mosaics of one
  name the first is given the accounts generated for the second; and above \<open>2^53\<close>
  the quotient, the product and the sum are rounded.
\<close>

lemma same_name_mosaics_rejected:
  "map amount
      (defaultDistributions (hd sameNameMosaics)
         (accountsOf (generatedTable exampleAccount 0 sameNameMosaics) (hd sameNameMosaics))
         [])
     = [Num 10, Num 10]
   \<and> generateMosaics exampleAccount 0 [] sameNameMosaics
       = Inl (InvalidNemgenTotalSupplied (Num 10) (Num 20))"
  by code_simp

lemma large_supply_rejected:
  "map amount
      (defaultDistributions (hd largeSupplyMosaics)
         (accountsOf (generatedTable exampleAccount 0 largeSupplyMosaics) (hd largeSupplyMosaics))
         [])
     = [Num 3002399751580333, Num 3002399751580331, Num 3002399751580331]
   \<and> generateMosaics exampleAccount 0 [] largeSupplyMosaics
       = Inl (InvalidNemgenTotalSupplied (Num 9007199254740994) (Num 9007199254740996))"
  by code_simp

lemma too_many_accounts_rejected:
  "generateAddresses gen k (Some (2 ^ 32)) = Inl RangeError"
  by (simp add: generateAddresses_def)

subsection \<open>The opt-in transactions\<close>

text \<open>The two cases of a callback on a well-formed entry.\<close>

lemma optInStep_handled:
  "wellFormed sdk seed e \<Longrightarrow> optInStep sdk seed dir st e = Inr (handled sdk seed dir st e)"
  by (auto simp: wellFormed_def handled_def optInStep_def storeTransaction_def Let_def)

lemma handled_skip:
  "wellFormed sdk seed e \<Longrightarrow> hashOf sdk seed e \<in> set (transactionHashes st) \<Longrightarrow>
     handled sdk seed dir st e
       = st\<lparr>optInEffects := optInEffects st @ [duplicateWarning (fst e) (hashOf sdk seed e)]\<rparr>"
  by (auto simp: wellFormed_def handled_def optInStep_def Let_def duplicateWarning_def hashOf_def)

lemma handled_accept:
  "wellFormed sdk seed e \<Longrightarrow> hashOf sdk seed e \<notin> set (transactionHashes st) \<Longrightarrow>
     handled sdk seed dir st e
       = st\<lparr>transactionHashes := transactionHashes st @ [hashOf sdk seed e],
            stored := stored st @ [e],
            optInEffects := optInEffects st @ [WriteFile (dir @ ''/'' @ fst e @ ''.bin'') (snd e)]\<rparr>"
  by (auto simp: wellFormed_def handled_def optInStep_def storeTransaction_def Let_def hashOf_def)

lemma optInMap_fold:
  "list_all (wellFormed sdk seed) xs \<Longrightarrow>
     optInMap sdk seed dir st xs = Inr (foldl (handled sdk seed dir) st xs)"
  by (induction xs arbitrary: st) (simp_all add: optInStep_handled)

lemma fold_rejections:
  "list_all (wellFormed sdk seed) xs \<Longrightarrow>
     rejections (foldl (handled sdk seed dir) st xs) = rejections st"
proof (induction xs arbitrary: st)
  case Nil
  show ?case by simp
next
  case (Cons x xs)
  then have wf: "wellFormed sdk seed x" and rest: "list_all (wellFormed sdk seed) xs"
    by simp_all
  show ?case
    by (cases "hashOf sdk seed x \<in> set (transactionHashes st)")
       (simp_all add: Cons.IH [OF rest] handled_skip [OF wf] handled_accept [OF wf])
qed

lemma fold_hashes:
  "list_all (wellFormed sdk seed) xs \<Longrightarrow>
     set (transactionHashes (foldl (handled sdk seed dir) st xs))
       = set (transactionHashes st) \<union> hashOf sdk seed ` set xs"
proof (induction xs arbitrary: st)
  case Nil
  show ?case by simp
next
  case (Cons x xs)
  then have wf: "wellFormed sdk seed x" and rest: "list_all (wellFormed sdk seed) xs"
    by simp_all
  show ?case
    by (cases "hashOf sdk seed x \<in> set (transactionHashes st)")
       (auto simp: Cons.IH [OF rest] handled_skip [OF wf] handled_accept [OF wf])
qed

lemma fold_effects_grow:
  "list_all (wellFormed sdk seed) xs \<Longrightarrow>
     set (optInEffects st) \<subseteq> set (optInEffects (foldl (handled sdk seed dir) st xs))"
proof (induction xs arbitrary: st)
  case Nil
  show ?case by simp
next
  case (Cons x xs)
  then have wf: "wellFormed sdk seed x" and rest: "list_all (wellFormed sdk seed) xs"
    by simp_all
  have "set (optInEffects st) \<subseteq> set (optInEffects (handled sdk seed dir st x))"
    by (cases "hashOf sdk seed x \<in> set (transactionHashes st)")
       (auto simp: handled_skip [OF wf] handled_accept [OF wf])
  then show ?case using Cons.IH [OF rest, of "handled sdk seed dir st x"] by auto
qed

lemma fold_stored_grow:
  "list_all (wellFormed sdk seed) xs \<Longrightarrow>
     set (stored st) \<subseteq> set (stored (foldl (handled sdk seed dir) st xs))"
proof (induction xs arbitrary: st)
  case Nil
  show ?case by simp
next
  case (Cons x xs)
  then have wf: "wellFormed sdk seed x" and rest: "list_all (wellFormed sdk seed) xs"
    by simp_all
  have "set (stored st) \<subseteq> set (stored (handled sdk seed dir st x))"
    by (cases "hashOf sdk seed x \<in> set (transactionHashes st)")
       (auto simp: handled_skip [OF wf] handled_accept [OF wf])
  then show ?case using Cons.IH [OF rest, of "handled sdk seed dir st x"] by auto
qed

lemma fold_stored_from:
  "list_all (wellFormed sdk seed) xs \<Longrightarrow>
     set (stored (foldl (handled sdk seed dir) st xs)) \<subseteq> set (stored st) \<union> set xs"
proof (induction xs arbitrary: st)
  case Nil
  show ?case by simp
next
  case (Cons x xs)
  then have wf: "wellFormed sdk seed x" and rest: "list_all (wellFormed sdk seed) xs"
    by simp_all
  have "set (stored (handled sdk seed dir st x)) \<subseteq> set (stored st) \<union> {x}"
    by (cases "hashOf sdk seed x \<in> set (transactionHashes st)")
       (auto simp: handled_skip [OF wf] handled_accept [OF wf])
  then show ?case using Cons.IH [OF rest, of "handled sdk seed dir st x"] by auto
qed

lemma fold_writes_from:
  "list_all (wellFormed sdk seed) xs \<Longrightarrow>
     WriteFile p c \<in> set (optInEffects (foldl (handled sdk seed dir) st xs))
     \<Longrightarrow> WriteFile p c \<in> set (optInEffects st)
         \<or> (\<exists>e \<in> set xs. p = dir @ ''/'' @ fst e @ ''.bin'' \<and> c = snd e)"
proof (induction xs arbitrary: st)
  case Nil
  then show ?case by simp
next
  case (Cons x xs)
  then have wf: "wellFormed sdk seed x" and rest: "list_all (wellFormed sdk seed) xs"
    by simp_all
  have step: "WriteFile p c \<in> set (optInEffects (handled sdk seed dir st x))
        \<Longrightarrow> WriteFile p c \<in> set (optInEffects st)
            \<or> (p = dir @ ''/'' @ fst x @ ''.bin'' \<and> c = snd x)"
    by (cases "hashOf sdk seed x \<in> set (transactionHashes st)")
       (auto simp: handled_skip [OF wf] handled_accept [OF wf] duplicateWarning_def)
  from Cons.prems(2) have "WriteFile p c \<in> set (optInEffects (handled sdk seed dir st x))
         \<or> (\<exists>e \<in> set xs. p = dir @ ''/'' @ fst e @ ''.bin'' \<and> c = snd e)"
    using Cons.IH [OF rest, of "handled sdk seed dir st x"] by simp
  then show ?case using step by auto
qed

lemma fold_counts:
  "list_all (wellFormed sdk seed) xs \<Longrightarrow>
     length (stored (foldl (handled sdk seed dir) st xs))
       + length (filter isLogWarn (optInEffects (foldl (handled sdk seed dir) st xs)))
     = length (stored st) + length (filter isLogWarn (optInEffects st)) + length xs"
proof (induction xs arbitrary: st)
  case Nil
  show ?case by simp
next
  case (Cons x xs)
  then have wf: "wellFormed sdk seed x" and rest: "list_all (wellFormed sdk seed) xs"
    by simp_all
  have "length (stored (handled sdk seed dir st x))
          + length (filter isLogWarn (optInEffects (handled sdk seed dir st x)))
        = length (stored st) + length (filter isLogWarn (optInEffects st)) + 1"
    by (cases "hashOf sdk seed x \<in> set (transactionHashes st)")
       (auto simp: handled_skip [OF wf] handled_accept [OF wf] duplicateWarning_def)
  then show ?case using Cons.IH [OF rest, of "handled sdk seed dir st x"] by simp
qed

lemma fold_stored_hashes:
  assumes "list_all (wellFormed sdk seed) xs" and "distinct (transactionHashes st)"
    and "length (stored st) = length (transactionHashes st)"
  shows "distinct (transactionHashes (foldl (handled sdk seed dir) st xs))
         \<and> length (stored (foldl (handled sdk seed dir) st xs))
             = length (transactionHashes (foldl (handled sdk seed dir) st xs))"
  using assms
proof (induction xs arbitrary: st)
  case Nil
  then show ?case by simp
next
  case (Cons x xs)
  then have wf: "wellFormed sdk seed x" and rest: "list_all (wellFormed sdk seed) xs"
    by simp_all
  have "distinct (transactionHashes (handled sdk seed dir st x))
        \<and> length (stored (handled sdk seed dir st x))
            = length (transactionHashes (handled sdk seed dir st x))"
    using Cons.prems(2,3)
    by (cases "hashOf sdk seed x \<in> set (transactionHashes st)")
       (auto simp: handled_skip [OF wf] handled_accept [OF wf])
  then show ?case using Cons.IH [OF rest, of "handled sdk seed dir st x"] by simp
qed

lemma fold_stored_invariants:
  assumes "list_all (wellFormed sdk seed) xs"
    and "map (hashOf sdk seed) (stored st) = transactionHashes st"
    and "\<forall>a \<in> set (stored st).
           WriteFile (dir @ ''/'' @ fst a @ ''.bin'') (snd a) \<in> set (optInEffects st)"
  shows "map (hashOf sdk seed) (stored (foldl (handled sdk seed dir) st xs))
           = transactionHashes (foldl (handled sdk seed dir) st xs)
         \<and> (\<forall>a \<in> set (stored (foldl (handled sdk seed dir) st xs)).
               WriteFile (dir @ ''/'' @ fst a @ ''.bin'') (snd a)
                 \<in> set (optInEffects (foldl (handled sdk seed dir) st xs)))"
  using assms
proof (induction xs arbitrary: st)
  case Nil
  then show ?case by simp
next
  case (Cons x xs)
  then have wf: "wellFormed sdk seed x" and rest: "list_all (wellFormed sdk seed) xs"
    by simp_all
  have "map (hashOf sdk seed) (stored (handled sdk seed dir st x))
          = transactionHashes (handled sdk seed dir st x)
        \<and> (\<forall>a \<in> set (stored (handled sdk seed dir st x)).
              WriteFile (dir @ ''/'' @ fst a @ ''.bin'') (snd a)
                \<in> set (optInEffects (handled sdk seed dir st x)))"
    using Cons.prems(2,3)
    by (cases "hashOf sdk seed x \<in> set (transactionHashes st)")
       (auto simp: handled_skip [OF wf] handled_accept [OF wf])
  then show ?case using Cons.IH [OF rest, of "handled sdk seed dir st x"] by simp
qed

lemma optInTransactions_fold:
  assumes "list_all (wellFormed sdk seed) entries"
  shows "optInTransactions sdk seed dir entries =
     Inr ((foldl (handled sdk seed dir)
             \<lparr>transactionHashes = [], stored = [], rejections = [], optInEffects = []\<rparr> entries)
       \<lparr>optInEffects :=
          optInEffects (foldl (handled sdk seed dir)
                          \<lparr>transactionHashes = [], stored = [], rejections = [],
                           optInEffects = []\<rparr> entries)
            @ [LogInfo (''Found ''
                 @ showNat (length (stored (foldl (handled sdk seed dir)
                      \<lparr>transactionHashes = [], stored = [], rejections = [],
                       optInEffects = []\<rparr> entries)))
                 @ '' opted in transactions.'')]\<rparr>)"
  using fold_rejections [OF assms, of dir
          "\<lparr>transactionHashes = [], stored = [], rejections = [], optInEffects = []\<rparr>"]
  by (simp add: optInTransactions_def optInMap_fold [OF assms])

text \<open>The key-link transactions, when none is rejected, write one file for each node.\<close>

lemma createVrfTransaction_cases:
  "createVrfTransaction sdk dir seed n = Inl PayloadError
   \<or> createVrfTransaction sdk dir seed n
       = Inr (WriteFile (dir @ ''/'' @ (''vrf_'' @ account_name n) @ ''.bin'') (signVrf sdk n seed))"
  by (simp add: createVrfTransaction_def storeTransaction_def)

lemma promiseAll_vrf:
  "\<not> isl (promiseAll (map (createVrfTransaction sdk dir seed) ns))
     \<Longrightarrow> promiseAll (map (createVrfTransaction sdk dir seed) ns) = Inr (vrfWrites sdk dir seed ns)"
proof (induction ns)
  case Nil
  show ?case by (simp add: vrfWrites_def)
next
  case (Cons n ns)
  then show ?case
    using createVrfTransaction_cases [of sdk dir seed n]
    by (cases "promiseAll (map (createVrfTransaction sdk dir seed) ns)")
       (auto simp: vrfWrites_def)
qed

text \<open>With well-formed transactions the run fails in the key-link files or in the balances.\<close>

lemma generateNemesisConfig_transactions:
  assumes "nemesis pd = Some nem" and "mosaics nem = Some ms"
    and "transactions nem = Some entries"
    and "seed = nemesisGenerationHashSeed pd" and "dir = transactionsFolder env tgt pd nem"
    and "list_all (wellFormed sdk seed) entries"
  shows "generateNemesisConfig sdk env tgt pd ns
           = (case promiseAll (map (createVrfTransaction sdk dir seed) ns) of
                Inl e \<Rightarrow> Inl e
              | Inr ws \<Rightarrow>
                  (case optInBalances ms (balances nem) of
                     Inl e \<Rightarrow> Inl e
                   | Inr (ms', balanceEffects) \<Rightarrow>
                       Inr (pd\<lparr>nemesis := Some (nem\<lparr>mosaics := Some ms'\<rparr>)\<rparr>,
                            Mkdir dir # ws
                              @ [LogInfo ''Opt In mode is ON!!! balances or transactions have been provided'']
                              @ optInEffects (optedIn sdk seed dir entries) @ balanceEffects)))"
proof -
  have "optInTransactions sdk seed dir entries = Inr (optedIn sdk seed dir entries)"
    using optInTransactions_fold [OF assms(6), of dir] by (simp add: optedIn_def)
  then show ?thesis
    using assms(1-3)
    by (simp add: generateNemesisConfig_def Let_def flip: assms(4,5) split: sum.splits)
qed

text \<open>
  C3 (amended). The opt-in transactions are the entries of an object, so their keys
  are distinct; they are processed when the genesis definition has mosaics. In a batch
  whose payloads all have a hash and are parsed by the SDK, the transactions do not
  fail, and for every entry: if its hash, computed from its payload and the generation
  hash seed of the preset, is the hash of an earlier entry of the batch, a warning is
  logged for it, no file is written under its key, it is not among the stored
  transactions, and an earlier entry with that hash is stored and its payload written
  to the file of its key; if its hash did not occur before, the entry is stored and its
  payload written to the file of its key. The number of stored transactions is the
  number of entries minus the number of warnings (it is the number of different
  hashes), and it is the count that the last log line reports. The run fails only in
  the key-link transactions of the nodes or in the opt-in balances, and when it does not
  fail its effects are the folder, the files of the key-link transactions, the line of
  the opt-in mode, the effects of the transactions and those of the balances.
\<close>

theorem duplicate_transactions_skipped:
  assumes "nemesis pd = Some nem" and "mosaics nem = Some ms"
    and "transactions nem = Some entries"
    and "seed = nemesisGenerationHashSeed pd" and "dir = transactionsFolder env tgt pd nem"
    and "distinct (map fst entries)" and "entries = pre @ e # post"
    and "list_all (wellFormed sdk seed) entries"
  shows
    "\<not> isl (optInTransactions sdk seed dir entries)
     \<and> (hashOf sdk seed e \<in> hashOf sdk seed ` set pre \<longrightarrow>
        duplicateWarning (fst e) (hashOf sdk seed e)
          \<in> set (optInEffects (optedIn sdk seed dir entries))
        \<and> (\<forall>c. WriteFile (dir @ ''/'' @ fst e @ ''.bin'') c
                 \<notin> set (optInEffects (optedIn sdk seed dir entries)))
        \<and> e \<notin> set (stored (optedIn sdk seed dir entries))
        \<and> (\<exists>a \<in> set pre. hashOf sdk seed a = hashOf sdk seed e
               \<and> a \<in> set (stored (optedIn sdk seed dir entries))
               \<and> WriteFile (dir @ ''/'' @ fst a @ ''.bin'') (snd a)
                    \<in> set (optInEffects (optedIn sdk seed dir entries))))
     \<and> (hashOf sdk seed e \<notin> hashOf sdk seed ` set pre \<longrightarrow>
          e \<in> set (stored (optedIn sdk seed dir entries))
          \<and> WriteFile (dir @ ''/'' @ fst e @ ''.bin'') (snd e)
               \<in> set (optInEffects (optedIn sdk seed dir entries)))
     \<and> length (stored (optedIn sdk seed dir entries))
         = length entries
             - length (filter isLogWarn (optInEffects (optedIn sdk seed dir entries)))
     \<and> length (stored (optedIn sdk seed dir entries))
         = card (hashOf sdk seed ` set entries)
     \<and> last (optInEffects (optedIn sdk seed dir entries))
         = LogInfo (''Found '' @ showNat (length (stored (optedIn sdk seed dir entries)))
                      @ '' opted in transactions.'')
     \<and> (isl (generateNemesisConfig sdk env tgt pd ns)
          \<longleftrightarrow> isl (promiseAll (map (createVrfTransaction sdk dir seed) ns))
              \<or> isl (optInBalances ms (balances nem)))
     \<and> (\<not> isl (generateNemesisConfig sdk env tgt pd ns) \<longrightarrow>
          snd (projr (generateNemesisConfig sdk env tgt pd ns))
          = Mkdir dir # vrfWrites sdk dir seed ns
              @ [LogInfo ''Opt In mode is ON!!! balances or transactions have been provided'']
              @ optInEffects (optedIn sdk seed dir entries)
              @ snd (projr (optInBalances ms (balances nem))))"
proof -
  let ?s0 = "\<lparr>transactionHashes = [], stored = [], rejections = [], optInEffects = []\<rparr>"
  let ?f = "handled sdk seed dir"
  let ?h = "hashOf sdk seed"
  define sp where "sp = foldl ?f ?s0 pre"
  define se where "se = ?f sp e"
  define sf where "sf = foldl ?f se post"
  define R where "R = optedIn sdk seed dir entries"
  have wf: "list_all (wellFormed sdk seed) pre" "wellFormed sdk seed e"
      "list_all (wellFormed sdk seed) post"
    using assms(8) unfolding assms(7) by simp_all
  have sf: "foldl ?f ?s0 entries = sf" by (simp add: assms(7) sf_def se_def sp_def)
  have run: "optInTransactions sdk seed dir entries
         = Inr (sf\<lparr>optInEffects := optInEffects sf
                 @ [LogInfo (''Found '' @ showNat (length (stored sf))
                              @ '' opted in transactions.'')]\<rparr>)"
    unfolding optInTransactions_fold [OF assms(8)] sf ..
  have ok: "\<not> isl (optInTransactions sdk seed dir entries)" by (simp add: run)
  have R: "R = sf\<lparr>optInEffects := optInEffects sf
                 @ [LogInfo (''Found '' @ showNat (length (stored sf))
                              @ '' opted in transactions.'')]\<rparr>"
    by (simp add: R_def optedIn_def run)
  have stR: "stored R = stored sf" and efR: "set (optInEffects R)
        = insert (LogInfo (''Found '' @ showNat (length (stored sf)) @ '' opted in transactions.''))
            (set (optInEffects sf))"
    by (simp_all add: R)
  have keys: "fst e \<notin> fst ` set pre" "fst e \<notin> fst ` set post"
    using assms(6) unfolding assms(7) by auto
  then have enot: "e \<notin> set pre" "e \<notin> set post" by (auto intro: rev_image_eqI)
  have hp: "set (transactionHashes sp) = ?h ` set pre"
    using fold_hashes [OF wf(1), of dir ?s0] by (simp add: sp_def)
  have invp: "map ?h (stored sp) = transactionHashes sp
         \<and> (\<forall>a \<in> set (stored sp).
               WriteFile (dir @ ''/'' @ fst a @ ''.bin'') (snd a) \<in> set (optInEffects sp))"
    unfolding sp_def by (rule fold_stored_invariants [OF wf(1)]) simp_all
  have stp: "set (stored sp) \<subseteq> set pre"
    using fold_stored_from [OF wf(1), of dir ?s0] by (simp add: sp_def)
  have wrp: "\<And>p c. WriteFile p c \<in> set (optInEffects sp)
               \<Longrightarrow> \<exists>a \<in> set pre. p = dir @ ''/'' @ fst a @ ''.bin'' \<and> c = snd a"
    using fold_writes_from [OF wf(1), of _ _ dir ?s0] by (simp add: sp_def)
  have grow_e: "set (optInEffects se) \<subseteq> set (optInEffects sf)"
    and grow_s: "set (stored se) \<subseteq> set (stored sf)"
    unfolding sf_def by (rule fold_effects_grow [OF wf(3)], rule fold_stored_grow [OF wf(3)])
  have from_s: "set (stored sf) \<subseteq> set (stored se) \<union> set post"
    unfolding sf_def by (rule fold_stored_from [OF wf(3)])
  have from_w: "\<And>p c. WriteFile p c \<in> set (optInEffects sf)
               \<Longrightarrow> WriteFile p c \<in> set (optInEffects se)
                   \<or> (\<exists>a \<in> set post. p = dir @ ''/'' @ fst a @ ''.bin'' \<and> c = snd a)"
    unfolding sf_def by (rule fold_writes_from [OF wf(3)])
  have dup: "duplicateWarning (fst e) (?h e) \<in> set (optInEffects R)
        \<and> (\<forall>c. WriteFile (dir @ ''/'' @ fst e @ ''.bin'') c \<notin> set (optInEffects R))
        \<and> e \<notin> set (stored R)
        \<and> (\<exists>a \<in> set pre. ?h a = ?h e \<and> a \<in> set (stored R)
               \<and> WriteFile (dir @ ''/'' @ fst a @ ''.bin'') (snd a) \<in> set (optInEffects R))"
    if d: "?h e \<in> ?h ` set pre"
  proof -
    have se': "se = sp\<lparr>optInEffects := optInEffects sp @ [duplicateWarning (fst e) (?h e)]\<rparr>"
      unfolding se_def using d hp by (simp add: handled_skip [OF wf(2)])
    have w: "duplicateWarning (fst e) (?h e) \<in> set (optInEffects R)"
      using grow_e se' efR by auto
    have nw: "WriteFile (dir @ ''/'' @ fst e @ ''.bin'') c \<notin> set (optInEffects R)" for c
    proof
      assume "WriteFile (dir @ ''/'' @ fst e @ ''.bin'') c \<in> set (optInEffects R)"
      then have "WriteFile (dir @ ''/'' @ fst e @ ''.bin'') c \<in> set (optInEffects sf)"
        using efR by simp
      then have "WriteFile (dir @ ''/'' @ fst e @ ''.bin'') c \<in> set (optInEffects sp)
            \<or> (\<exists>a \<in> set post. dir @ ''/'' @ fst e @ ''.bin'' = dir @ ''/'' @ fst a @ ''.bin''
                                \<and> c = snd a)"
        using from_w [of "dir @ ''/'' @ fst e @ ''.bin''" c] se'
        by (auto simp: duplicateWarning_def)
      then have "(\<exists>a \<in> set pre. fst e = fst a) \<or> (\<exists>a \<in> set post. fst e = fst a)"
        using wrp [of "dir @ ''/'' @ fst e @ ''.bin''" c] by auto
      then show False using keys by auto
    qed
    have nst: "e \<notin> set (stored R)"
      using from_s se' stp enot stR by auto
    obtain a where a: "a \<in> set (stored sp)" "?h a = ?h e"
    proof -
      have "?h e \<in> set (map ?h (stored sp))" using invp hp d by simp
      then show ?thesis using that by auto
    qed
    have "a \<in> set pre" using a stp by auto
    moreover have "a \<in> set (stored R)" using a grow_s se' stR by auto
    moreover have "WriteFile (dir @ ''/'' @ fst a @ ''.bin'') (snd a) \<in> set (optInEffects R)"
      using a invp grow_e se' efR by auto
    ultimately show ?thesis using w nw nst a(2) by blast
  qed
  have first: "e \<in> set (stored R)
        \<and> WriteFile (dir @ ''/'' @ fst e @ ''.bin'') (snd e) \<in> set (optInEffects R)"
    if d: "?h e \<notin> ?h ` set pre"
  proof -
    have se': "se = sp\<lparr>transactionHashes := transactionHashes sp @ [?h e],
                       stored := stored sp @ [e],
                       optInEffects := optInEffects sp
                         @ [WriteFile (dir @ ''/'' @ fst e @ ''.bin'') (snd e)]\<rparr>"
      unfolding se_def using d hp by (simp add: handled_accept [OF wf(2)])
    show ?thesis using grow_e grow_s se' stR efR by auto
  qed
  have cnt: "length (stored sf) + length (filter isLogWarn (optInEffects sf)) = length entries"
    using fold_counts [OF assms(8), of dir ?s0] sf by simp
  have cntR: "length (stored R) = length entries - length (filter isLogWarn (optInEffects R))"
    using cnt by (simp add: R)
  have "distinct (transactionHashes sf) \<and> length (stored sf) = length (transactionHashes sf)"
    using fold_stored_hashes [OF assms(8), of ?s0 dir] sf by simp
  moreover have "set (transactionHashes sf) = ?h ` set entries"
    using fold_hashes [OF assms(8), of dir ?s0] sf by simp
  ultimately have card: "length (stored R) = card (?h ` set entries)"
    using distinct_card [of "transactionHashes sf"] stR by simp
  have lst: "last (optInEffects R)
         = LogInfo (''Found '' @ showNat (length (stored R)) @ '' opted in transactions.'')"
    by (simp add: R)
  have whole: "generateNemesisConfig sdk env tgt pd ns
           = (case promiseAll (map (createVrfTransaction sdk dir seed) ns) of
                Inl e \<Rightarrow> Inl e
              | Inr ws \<Rightarrow>
                  (case optInBalances ms (balances nem) of
                     Inl e \<Rightarrow> Inl e
                   | Inr (ms', balanceEffects) \<Rightarrow>
                       Inr (pd\<lparr>nemesis := Some (nem\<lparr>mosaics := Some ms'\<rparr>)\<rparr>,
                            Mkdir dir # ws
                              @ [LogInfo ''Opt In mode is ON!!! balances or transactions have been provided'']
                              @ optInEffects R @ balanceEffects)))"
    unfolding R_def by (rule generateNemesisConfig_transactions [OF assms(1-5,8)])
  have fails: "isl (generateNemesisConfig sdk env tgt pd ns)
          \<longleftrightarrow> isl (promiseAll (map (createVrfTransaction sdk dir seed) ns))
              \<or> isl (optInBalances ms (balances nem))"
    unfolding whole by (auto split: sum.splits)
  have effs: "\<not> isl (generateNemesisConfig sdk env tgt pd ns) \<longrightarrow>
          snd (projr (generateNemesisConfig sdk env tgt pd ns))
          = Mkdir dir # vrfWrites sdk dir seed ns
              @ [LogInfo ''Opt In mode is ON!!! balances or transactions have been provided'']
              @ optInEffects R @ snd (projr (optInBalances ms (balances nem)))"
  proof
    assume n: "\<not> isl (generateNemesisConfig sdk env tgt pd ns)"
    then have "\<not> isl (promiseAll (map (createVrfTransaction sdk dir seed) ns))"
      using fails by simp
    then have v: "promiseAll (map (createVrfTransaction sdk dir seed) ns)
                    = Inr (vrfWrites sdk dir seed ns)"
      by (rule promiseAll_vrf)
    obtain ms' bes where b: "optInBalances ms (balances nem) = Inr (ms', bes)"
      using n fails by (cases "optInBalances ms (balances nem)") auto
    show "snd (projr (generateNemesisConfig sdk env tgt pd ns))
          = Mkdir dir # vrfWrites sdk dir seed ns
              @ [LogInfo ''Opt In mode is ON!!! balances or transactions have been provided'']
              @ optInEffects R @ snd (projr (optInBalances ms (balances nem)))"
      unfolding whole v b by simp
  qed
  show ?thesis
    using ok dup first cntR card lst fails effs unfolding R_def by blast
qed

theorem duplicate_transactions_skipped_witness:
  "nemesis transactionsPreset = Some transactionsNemesis
   \<and> mosaics transactionsNemesis = Some [exampleOptInMosaic]
   \<and> transactions transactionsNemesis = Some exampleTransactions
   \<and> ''C0FFEE'' = nemesisGenerationHashSeed transactionsPreset
   \<and> ''target/config/nemesis/transactions''
       = transactionsFolder exampleEnv ''target'' transactionsPreset transactionsNemesis
   \<and> distinct (map fst exampleTransactions)
   \<and> exampleTransactions
       = [(''tx1'', ''A1B2C3D4''), (''tx2'', ''C3D4E5F6'')] @ (''tx3'', ''A1B2C3D4'') # []
   \<and> list_all (wellFormed exampleSdk ''C0FFEE'') exampleTransactions
   \<and> hashOf exampleSdk ''C0FFEE'' (''tx3'', ''A1B2C3D4'')
       \<in> hashOf exampleSdk ''C0FFEE'' ` set [(''tx1'', ''A1B2C3D4''), (''tx2'', ''C3D4E5F6'')]
   \<and> (''tx3'', ''A1B2C3D4'')
       \<notin> set (stored (optedIn exampleSdk ''C0FFEE'' ''target/config/nemesis/transactions''
                         exampleTransactions))
   \<and> LogWarn ''Transaction tx3 wth hash hash(A1B2C3D4,C0FFEE) already exist. Excluded from folder.''
       \<in> set (optInEffects (optedIn exampleSdk ''C0FFEE'' ''target/config/nemesis/transactions''
                               exampleTransactions))
   \<and> (''tx1'', ''A1B2C3D4'')
       \<in> set (stored (optedIn exampleSdk ''C0FFEE'' ''target/config/nemesis/transactions''
                         exampleTransactions))
   \<and> WriteFile ''target/config/nemesis/transactions/tx1.bin'' ''A1B2C3D4''
       \<in> set (optInEffects (optedIn exampleSdk ''C0FFEE'' ''target/config/nemesis/transactions''
                               exampleTransactions))
   \<and> length (stored (optedIn exampleSdk ''C0FFEE'' ''target/config/nemesis/transactions''
                        exampleTransactions)) = 2
   \<and> last (optInEffects (optedIn exampleSdk ''C0FFEE'' ''target/config/nemesis/transactions''
                             exampleTransactions))
       = LogInfo ''Found 2 opted in transactions.''
   \<and> \<not> isl (generateNemesisConfig exampleSdk exampleEnv ''target'' transactionsPreset
               [exampleNodeAccount])"
proof -
  define R where
    "R = optedIn exampleSdk ''C0FFEE'' ''target/config/nemesis/transactions'' exampleTransactions"
  have n: "nemesis transactionsPreset = Some transactionsNemesis"
    by (simp add: transactionsPreset_def)
  have m: "mosaics transactionsNemesis = Some [exampleOptInMosaic]"
    by (simp add: transactionsNemesis_def)
  have t: "transactions transactionsNemesis = Some exampleTransactions"
    by (simp add: transactionsNemesis_def)
  have s: "''C0FFEE'' = nemesisGenerationHashSeed transactionsPreset"
    by (simp add: transactionsPreset_def examplePreset_def)
  have f: "''target/config/nemesis/transactions''
             = transactionsFolder exampleEnv ''target'' transactionsPreset transactionsNemesis"
    by (simp add: transactionsFolder_def joinPath_def exampleEnv_def transactionsPreset_def
          transactionsNemesis_def examplePreset_def)
  have d: "distinct (map fst exampleTransactions)" by (simp add: exampleTransactions_def)
  have e3: "exampleTransactions
              = [(''tx1'', ''A1B2C3D4''), (''tx2'', ''C3D4E5F6'')] @ (''tx3'', ''A1B2C3D4'') # []"
    by (simp add: exampleTransactions_def)
  have e1: "exampleTransactions
              = [] @ (''tx1'', ''A1B2C3D4'') # [(''tx2'', ''C3D4E5F6''), (''tx3'', ''A1B2C3D4'')]"
    by (simp add: exampleTransactions_def)
  have w: "list_all (wellFormed exampleSdk ''C0FFEE'') exampleTransactions"
    by (simp add: exampleTransactions_def wellFormed_def exampleSdk_def)
  have h3: "hashOf exampleSdk ''C0FFEE'' (''tx3'', ''A1B2C3D4'')
       \<in> hashOf exampleSdk ''C0FFEE'' ` set [(''tx1'', ''A1B2C3D4''), (''tx2'', ''C3D4E5F6'')]"
    by (simp add: hashOf_def exampleSdk_def)
  have h1: "hashOf exampleSdk ''C0FFEE'' (''tx1'', ''A1B2C3D4'')
       \<notin> hashOf exampleSdk ''C0FFEE'' ` set []"
    by simp
  have c: "card (hashOf exampleSdk ''C0FFEE'' ` set exampleTransactions) = 2"
    by (simp add: exampleTransactions_def hashOf_def exampleSdk_def insert_commute)
  have v: "\<not> isl (promiseAll (map (createVrfTransaction exampleSdk
                      ''target/config/nemesis/transactions'' ''C0FFEE'') [exampleNodeAccount]))"
    by code_simp
  have b: "\<not> isl (optInBalances [exampleOptInMosaic] (balances transactionsNemesis))"
    by code_simp
  note third = duplicate_transactions_skipped [OF n m t s f d e3 w, of "[exampleNodeAccount]",
      folded R_def]
  note first = duplicate_transactions_skipped [OF n m t s f d e1 w, of "[exampleNodeAccount]",
      folded R_def]
  have a1: "(''tx3'', ''A1B2C3D4'') \<notin> set (stored R)" using third h3 by blast
  have "duplicateWarning (fst (''tx3'', ''A1B2C3D4''))
          (hashOf exampleSdk ''C0FFEE'' (''tx3'', ''A1B2C3D4'')) \<in> set (optInEffects R)"
    using third h3 by blast
  then have a2: "LogWarn ''Transaction tx3 wth hash hash(A1B2C3D4,C0FFEE) already exist. Excluded from folder.''
                   \<in> set (optInEffects R)"
    by (simp add: duplicateWarning_def hashOf_def exampleSdk_def)
  have a3: "(''tx1'', ''A1B2C3D4'') \<in> set (stored R)" using first h1 by blast
  have "WriteFile (''target/config/nemesis/transactions'' @ ''/'' @ fst (''tx1'', ''A1B2C3D4'') @ ''.bin'')
          (snd (''tx1'', ''A1B2C3D4'')) \<in> set (optInEffects R)"
    using first h1 by blast
  then have a4: "WriteFile ''target/config/nemesis/transactions/tx1.bin'' ''A1B2C3D4''
                   \<in> set (optInEffects R)"
    by simp
  have "length (stored R) = card (hashOf exampleSdk ''C0FFEE'' ` set exampleTransactions)"
    using third by blast
  then have a5: "length (stored R) = 2" using c by simp
  have "last (optInEffects R)
          = LogInfo (''Found '' @ showNat (length (stored R)) @ '' opted in transactions.'')"
    using third by blast
  then have a6: "last (optInEffects R) = LogInfo ''Found 2 opted in transactions.''"
    by (simp add: a5 showNat.simps digit_def)
  have a7: "\<not> isl (generateNemesisConfig exampleSdk exampleEnv ''target'' transactionsPreset
                    [exampleNodeAccount])"
    using third v b by blast
  show ?thesis
    using n m t s f d e3 w h3 a1 a2 a3 a4 a5 a6 a7 unfolding R_def by blast
qed

text \<open>
  As stated, for every batch, the claim fails. A stored payload is parsed before it is
  written, and the parser throws on a malformed one. In a batch of one payload under
  two keys, which has a hash and is not parsed, the second entry is a duplicate of the
  first; the first is not written, the transactions fail and so does the run.
\<close>

theorem unparsed_duplicate_counterexample:
  "distinct (map fst shortTransactions)
   \<and> createTransactionHash exampleSdk (snd (shortTransactions ! 0)) ''C0FFEE''
       = Some ''hash(A1B2,C0FFEE)''
   \<and> createTransactionHash exampleSdk (snd (shortTransactions ! 1)) ''C0FFEE''
       = Some ''hash(A1B2,C0FFEE)''
   \<and> optInTransactions exampleSdk ''C0FFEE'' ''target/config/nemesis/transactions''
         shortTransactions
       = Inl PayloadError
   \<and> nemesis shortTransactionsPreset
       = Some (transactionsNemesis\<lparr>transactions := Some shortTransactions\<rparr>)
   \<and> generateNemesisConfig exampleSdk exampleEnv ''target'' shortTransactionsPreset
         [exampleNodeAccount]
       = Inl PayloadError"
  by code_simp

subsection \<open>The opt-in balances\<close>

text \<open>Adding back what was subtracted is exact.\<close>

lemma foldl_addD_restores:
  "\<bar>c\<bar> + sum_list (map abs xs) < 2 ^ 53
     \<Longrightarrow> foldl addD (Num (c - sum_list xs)) (map Num xs) = Num c"
proof (induction xs)
  case Nil
  show ?case by simp
next
  case (Cons x xs)
  have "\<bar>sum_list xs\<bar> \<le> sum_list (map abs xs)" by (rule sum_list_abs)
  then have "\<bar>c - sum_list xs\<bar> < 2 ^ 53" using Cons.prems by simp
  then have "addD (Num (c - sum_list (x # xs))) (Num x) = Num (c - sum_list xs)"
    using addD_exact [of "c - sum_list (x # xs)" x] by simp
  moreover have "\<bar>c\<bar> + sum_list (map abs xs) < 2 ^ 53" using Cons.prems by simp
  ultimately show ?case using Cons.IH by simp
qed

lemma adjusted_total_exact:
  assumes "\<bar>a\<bar> + sum_list (map abs os) + sum_list (map abs bs) < 2 ^ 53"
  shows "sumD (Num (a - sum_list bs) # map Num os @ map Num bs) = Num (a + sum_list os)"
proof -
  have bs: "\<bar>sum_list bs\<bar> \<le> sum_list (map abs bs)" by (rule sum_list_abs)
  have os: "\<bar>sum_list os\<bar> \<le> sum_list (map abs os)" by (rule sum_list_abs)
  have nn: "0 \<le> sum_list (map abs os)" "0 \<le> sum_list (map abs bs)"
    using os bs by linarith+
  have "\<bar>0\<bar> + sum_list (map abs ((a - sum_list bs) # os)) < 2 ^ 53"
    using assms bs by simp
  then have inner: "foldl addD (Num 0) (map Num ((a - sum_list bs) # os))
                      = Num (0 + sum_list ((a - sum_list bs) # os))"
    by (rule foldl_addD_exact)
  have "\<bar>a + sum_list os\<bar> + sum_list (map abs bs) < 2 ^ 53"
    using assms os by linarith
  then have outer: "foldl addD (Num ((a + sum_list os) - sum_list bs)) (map Num bs)
                      = Num (a + sum_list os)"
    by (rule foldl_addD_restores)
  have "sumD (Num (a - sum_list bs) # map Num os @ map Num bs)
          = foldl addD (foldl addD (Num 0) (map Num ((a - sum_list bs) # os))) (map Num bs)"
    by (simp add: sumD_def)
  also have "\<dots> = foldl addD (Num ((a + sum_list os) - sum_list bs)) (map Num bs)"
    unfolding inner by (simp add: algebra_simps)
  finally show ?thesis using outer by simp
qed

lemma balance_entries: "map (\<lambda>(a, v). \<lparr>dist_address = a, amount = v\<rparr>) bal = map balanceEntry bal"
  by (simp add: balanceEntry_def case_prod_beta)

lemma optInBalances_some:
  assumes cd: "currencyDistributions currencyMosaic = Some (ngl # others)"
    and ds: "map amount (ngl # others) = map Num (a # os)"
    and bal: "map snd bal = map Num bs"
    and bound: "sum_list (map abs (a # os)) + sum_list (map abs bs) < 2 ^ 53"
  shows \<open>optInBalances (currencyMosaic # rest) (Some bal) =
           (if a - sum_list bs < 1 then
              Inl (NglAccountNotEnoughBalance (Num a) (Num (sum_list (a # os))))
            else if mosaic_supply currencyMosaic \<noteq> Num (sum_list (a # os)) then
              Inl (SuppliedBalanceDifferent (Num (sum_list (a # os)))
                     (mosaic_supply currencyMosaic))
            else
              Inr (currencyMosaic
                     \<lparr>currencyDistributions :=
                        Some (ngl\<lparr>amount := Num (a - sum_list bs)\<rparr>
                                # others @ map balanceEntry bal)\<rparr> # rest,
                   [LogInfo (''Removing '' @ showNat (length bal) @ '' accounts (total of ''
                               @ showInt (sum_list bs)
                               @ '') from "ngl" account '' @ dist_address ngl)]))\<close>
proof -
  have an: "amount ngl = Num a" and ao: "map amount others = map Num os"
    using ds by simp_all
  have babs: "\<bar>sum_list bs\<bar> \<le> sum_list (map abs bs)" by (rule sum_list_abs)
  have nn: "0 \<le> sum_list (map abs os)" "0 \<le> sum_list (map abs bs)"
    using sum_list_abs [of os] babs by linarith+
  have "sum_list (map abs bs) < 2 ^ 53" using bound nn by simp
  then have tot: "sumD (map Num bs) = Num (sum_list bs)"
    by (rule sumD_exact)
  have ba: "map (amount \<circ> balanceEntry) bal = map Num bs"
    using bal by (simp add: balanceEntry_def comp_def)
  have "\<bar>a - sum_list bs\<bar> < 2 ^ 53" using bound babs nn by simp
  then have res: "subD (Num a) (Num (sum_list bs)) = Num (a - sum_list bs)"
    by (rule subD_exact)
  have "\<bar>a\<bar> + sum_list (map abs os) + sum_list (map abs bs) < 2 ^ 53"
    using bound by simp
  then have cur: "sumD (Num (a - sum_list bs) # map Num os @ map Num bs)
                    = Num (a + sum_list os)"
    by (rule adjusted_total_exact)
  have neq: "neqD (Num (a + sum_list os)) s \<longleftrightarrow> s \<noteq> Num (a + sum_list os)" for s
    by (auto simp: neqD_def)
  show ?thesis
    using cd
    by (simp add: optInBalances_def Let_def balance_entries ba bal an ao tot res cur neq)
qed

text \<open>The run with balances: where it fails, and the preset it leaves.\<close>

lemma generateNemesisConfig_balances_fails:
  assumes "nemesis pd = Some nem" and "mosaics nem = Some ms" and "balances nem = Some bal"
  shows "isl (generateNemesisConfig sdk env tgt pd ns)
           \<longleftrightarrow> isl (promiseAll (map (createVrfTransaction sdk (transactionsFolder env tgt pd nem)
                                        (nemesisGenerationHashSeed pd)) ns))
               \<or> (case transactions nem of
                     None \<Rightarrow> False
                   | Some txs \<Rightarrow>
                       isl (optInTransactions sdk (nemesisGenerationHashSeed pd)
                              (transactionsFolder env tgt pd nem) txs))
               \<or> isl (optInBalances ms (Some bal))"
  using assms
  by (auto simp: generateNemesisConfig_def Let_def split: sum.splits option.splits)

lemma generateNemesisConfig_balances_preset:
  assumes "nemesis pd = Some nem" and "mosaics nem = Some ms" and "balances nem = Some bal"
    and "\<not> isl (generateNemesisConfig sdk env tgt pd ns)"
  shows "fst (projr (generateNemesisConfig sdk env tgt pd ns))
           = pd\<lparr>nemesis := Some (nem\<lparr>mosaics := Some (fst (projr (optInBalances ms (Some bal))))\<rparr>)\<rparr>"
  using assms
  by (auto simp: generateNemesisConfig_def Let_def split: sum.splits option.splits)

text \<open>
  C2 (amended). In the opt-in path, with a currency mosaic whose distribution starts
  with the residual entry, with balances totalling \<open>T\<close>, and with amounts that are
  integers whose absolute values, of the distribution and of the balances together,
  total less than \<open>2^53\<close>: every balance is appended to the distribution as an entry
  of its address and amount, and \<open>T\<close> is subtracted from the amount of the first
  entry, so the residual amount becomes the original one minus \<open>T\<close> and the total of
  the distribution is unchanged. The operation fails exactly when the residual amount
  after the subtraction is below 1 or the total differs from the declared supply. The
  run fails exactly when the key-link transactions, the opt-in transactions or this
  operation fail, and otherwise leaves the preset with the adjusted distribution in its
  currency mosaic.
\<close>

theorem optIn_balances_adjust_residual:
  assumes "nemesis pd = Some nem" and "mosaics nem = Some (currencyMosaic # rest)"
    and "balances nem = Some bal"
    and "currencyDistributions currencyMosaic = Some (ngl # others)"
    and "map amount (ngl # others) = map Num (a # os)"
    and "map snd bal = map Num bs"
    and "sum_list (map abs (a # os)) + sum_list (map abs bs) < 2 ^ 53"
  shows
    \<open>optInBalances (currencyMosaic # rest) (Some bal) =
        (if a - sum_list bs < 1 then
           Inl (NglAccountNotEnoughBalance (Num a) (Num (sum_list (a # os))))
         else if mosaic_supply currencyMosaic \<noteq> Num (sum_list (a # os)) then
           Inl (SuppliedBalanceDifferent (Num (sum_list (a # os)))
                  (mosaic_supply currencyMosaic))
         else
           Inr (currencyMosaic
                  \<lparr>currencyDistributions :=
                     Some (ngl\<lparr>amount := Num (a - sum_list bs)\<rparr>
                             # others @ map balanceEntry bal)\<rparr> # rest,
                [LogInfo (''Removing '' @ showNat (length bal) @ '' accounts (total of ''
                            @ showInt (sum_list bs)
                            @ '') from "ngl" account '' @ dist_address ngl)]))
      \<and> sumD (map snd bal) = Num (sum_list bs)
      \<and> subD (amount ngl) (sumD (map snd bal)) = Num (a - sum_list bs)
      \<and> sumD (map amount (ngl # others)) = Num (sum_list (a # os))
      \<and> sumD (map amount (ngl\<lparr>amount := Num (a - sum_list bs)\<rparr>
                             # others @ map balanceEntry bal))
          = Num (sum_list (a # os))
      \<and> (isl (optInBalances (currencyMosaic # rest) (Some bal))
           \<longleftrightarrow> a - sum_list bs < 1 \<or> mosaic_supply currencyMosaic \<noteq> Num (sum_list (a # os)))
      \<and> (isl (generateNemesisConfig sdk env tgt pd ns)
           \<longleftrightarrow> isl (promiseAll (map (createVrfTransaction sdk (transactionsFolder env tgt pd nem)
                                        (nemesisGenerationHashSeed pd)) ns))
               \<or> (case transactions nem of
                     None \<Rightarrow> False
                   | Some txs \<Rightarrow>
                       isl (optInTransactions sdk (nemesisGenerationHashSeed pd)
                              (transactionsFolder env tgt pd nem) txs))
               \<or> a - sum_list bs < 1
               \<or> mosaic_supply currencyMosaic \<noteq> Num (sum_list (a # os)))
      \<and> (\<not> isl (generateNemesisConfig sdk env tgt pd ns) \<longrightarrow>
           fst (projr (generateNemesisConfig sdk env tgt pd ns))
           = pd\<lparr>nemesis :=
                  Some (nem\<lparr>mosaics :=
                         Some (currencyMosaic
                                 \<lparr>currencyDistributions :=
                                    Some (ngl\<lparr>amount := Num (a - sum_list bs)\<rparr>
                                            # others @ map balanceEntry bal)\<rparr> # rest)\<rparr>)\<rparr>)\<close>
proof -
  define ds' where "ds' = ngl\<lparr>amount := Num (a - sum_list bs)\<rparr> # others @ map balanceEntry bal"
  define total where "total = sum_list (a # os)"
  define B where "B = optInBalances (currencyMosaic # rest) (Some bal)"
  define G where "G = generateNemesisConfig sdk env tgt pd ns"
  have babs: "\<bar>sum_list bs\<bar> \<le> sum_list (map abs bs)" by (rule sum_list_abs)
  have nn: "0 \<le> sum_list (map abs (a # os))" "0 \<le> sum_list (map abs bs)"
    using sum_list_abs [of "a # os"] babs by linarith+
  have an: "amount ngl = Num a" and ao: "map amount others = map Num os"
    using assms(5) by simp_all
  have v: \<open>B =
        (if a - sum_list bs < 1 then Inl (NglAccountNotEnoughBalance (Num a) (Num total))
         else if mosaic_supply currencyMosaic \<noteq> Num total then
           Inl (SuppliedBalanceDifferent (Num total) (mosaic_supply currencyMosaic))
         else
           Inr (currencyMosaic\<lparr>currencyDistributions := Some ds'\<rparr> # rest,
                [LogInfo (''Removing '' @ showNat (length bal) @ '' accounts (total of ''
                            @ showInt (sum_list bs)
                            @ '') from "ngl" account '' @ dist_address ngl)]))\<close>
    unfolding B_def ds'_def total_def by (rule optInBalances_some [OF assms(4-7)])
  have "sum_list (map abs bs) < 2 ^ 53" using assms(7) nn by linarith
  then have "sumD (map Num bs) = Num (sum_list bs)" by (rule sumD_exact)
  then have t: "sumD (map snd bal) = Num (sum_list bs)" by (simp add: assms(6))
  have "\<bar>a - sum_list bs\<bar> < 2 ^ 53" using assms(7) babs sum_list_abs [of os] by simp
  then have "subD (Num a) (Num (sum_list bs)) = Num (a - sum_list bs)" by (rule subD_exact)
  then have r: "subD (amount ngl) (sumD (map snd bal)) = Num (a - sum_list bs)"
    by (simp add: an t)
  have "sum_list (map abs (a # os)) < 2 ^ 53" using assms(7) nn by linarith
  then have "sumD (map Num (a # os)) = Num (sum_list (a # os))" by (rule sumD_exact)
  then have before: "sumD (map amount (ngl # others)) = Num total"
    by (simp add: an ao total_def)
  have "\<bar>a\<bar> + sum_list (map abs os) + sum_list (map abs bs) < 2 ^ 53"
    using assms(7) by simp
  then have "sumD (Num (a - sum_list bs) # map Num os @ map Num bs) = Num (a + sum_list os)"
    by (rule adjusted_total_exact)
  moreover have "map amount ds' = Num (a - sum_list bs) # map Num os @ map Num bs"
    using assms(6) by (simp add: ds'_def ao balanceEntry_def comp_def)
  ultimately have after: "sumD (map amount ds') = Num total" by (simp add: total_def)
  have fails: "isl B \<longleftrightarrow> a - sum_list bs < 1 \<or> mosaic_supply currencyMosaic \<noteq> Num total"
    unfolding v by simp
  have run: "isl G
           \<longleftrightarrow> isl (promiseAll (map (createVrfTransaction sdk (transactionsFolder env tgt pd nem)
                                        (nemesisGenerationHashSeed pd)) ns))
               \<or> (case transactions nem of
                     None \<Rightarrow> False
                   | Some txs \<Rightarrow>
                       isl (optInTransactions sdk (nemesisGenerationHashSeed pd)
                              (transactionsFolder env tgt pd nem) txs))
               \<or> a - sum_list bs < 1
               \<or> mosaic_supply currencyMosaic \<noteq> Num total"
    unfolding G_def generateNemesisConfig_balances_fails [OF assms(1-3)]
    using fails unfolding B_def by simp
  have left: "\<not> isl G \<longrightarrow>
           fst (projr G)
           = pd\<lparr>nemesis :=
                  Some (nem\<lparr>mosaics :=
                         Some (currencyMosaic\<lparr>currencyDistributions := Some ds'\<rparr> # rest)\<rparr>)\<rparr>"
  proof
    assume n: "\<not> isl G"
    then have "\<not> isl B" using run fails by blast
    then have "fst (projr B) = currencyMosaic\<lparr>currencyDistributions := Some ds'\<rparr> # rest"
      using fails unfolding v by simp
    then show "fst (projr G)
           = pd\<lparr>nemesis :=
                  Some (nem\<lparr>mosaics :=
                         Some (currencyMosaic\<lparr>currencyDistributions := Some ds'\<rparr> # rest)\<rparr>)\<rparr>"
      using generateNemesisConfig_balances_preset [OF assms(1-3)] n
      unfolding G_def B_def by simp
  qed
  show ?thesis
    using v t r before after fails run left
    unfolding B_def G_def ds'_def total_def by blast
qed

theorem optIn_balances_adjust_residual_witness:
  "nemesis balancesPreset = Some balancesNemesis
   \<and> mosaics balancesNemesis = Some (exampleOptInMosaic # [])
   \<and> balances balancesNemesis = Some exampleBalances
   \<and> currencyDistributions exampleOptInMosaic
       = Some (\<lparr>dist_address = ''address-ngl'', amount = Num 60\<rparr>
                 # [\<lparr>dist_address = ''address-1'', amount = Num 40\<rparr>])
   \<and> map amount (\<lparr>dist_address = ''address-ngl'', amount = Num 60\<rparr>
                    # [\<lparr>dist_address = ''address-1'', amount = Num 40\<rparr>])
       = map Num (60 # [40])
   \<and> map snd exampleBalances = map Num [10, 5]
   \<and> sum_list (map abs (60 # [40])) + sum_list (map abs [10, 5]) < (2::int) ^ 53
   \<and> map_sum id fst (optInBalances [exampleOptInMosaic] (Some exampleBalances))
       = Inr [exampleOptInMosaic
                \<lparr>currencyDistributions :=
                   Some [\<lparr>dist_address = ''address-ngl'', amount = Num 45\<rparr>,
                         \<lparr>dist_address = ''address-1'', amount = Num 40\<rparr>,
                         \<lparr>dist_address = ''address-x'', amount = Num 10\<rparr>,
                         \<lparr>dist_address = ''address-y'', amount = Num 5\<rparr>]\<rparr>]
   \<and> mosaic_supply exampleOptInMosaic = Num (45 + 40 + 10 + 5)
   \<and> \<not> isl (generateNemesisConfig exampleSdk exampleEnv ''target'' balancesPreset
               [exampleNodeAccount])
   \<and> fst (projr (generateNemesisConfig exampleSdk exampleEnv ''target'' balancesPreset
                    [exampleNodeAccount]))
       = balancesPreset
           \<lparr>nemesis :=
              Some (balancesNemesis
                      \<lparr>mosaics :=
                         Some [exampleOptInMosaic
                                 \<lparr>currencyDistributions :=
                                    Some [\<lparr>dist_address = ''address-ngl'', amount = Num 45\<rparr>,
                                          \<lparr>dist_address = ''address-1'', amount = Num 40\<rparr>,
                                          \<lparr>dist_address = ''address-x'', amount = Num 10\<rparr>,
                                          \<lparr>dist_address = ''address-y'', amount = Num 5\<rparr>]\<rparr>]\<rparr>)\<rparr>"
proof -
  have n: "nemesis balancesPreset = Some balancesNemesis" by (simp add: balancesPreset_def)
  have m: "mosaics balancesNemesis = Some (exampleOptInMosaic # [])"
    by (simp add: balancesNemesis_def)
  have b: "balances balancesNemesis = Some exampleBalances" by (simp add: balancesNemesis_def)
  have t: "transactions balancesNemesis = None" by (simp add: balancesNemesis_def)
  have c: "currencyDistributions exampleOptInMosaic
       = Some (\<lparr>dist_address = ''address-ngl'', amount = Num 60\<rparr>
                 # [\<lparr>dist_address = ''address-1'', amount = Num 40\<rparr>])"
    by (simp add: exampleOptInMosaic_def)
  have d: "map amount (\<lparr>dist_address = ''address-ngl'', amount = Num 60\<rparr>
                    # [\<lparr>dist_address = ''address-1'', amount = Num 40\<rparr>])
       = map Num (60 # [40])"
    by simp
  have e: "map snd exampleBalances = map Num [10, 5]" by (simp add: exampleBalances_def)
  have l: "sum_list (map abs (60 # [40])) + sum_list (map abs [10, 5]) < (2::int) ^ 53"
    by simp
  have s: "mosaic_supply exampleOptInMosaic = Num 100" by (simp add: exampleOptInMosaic_def)
  have v: "\<not> isl (promiseAll (map (createVrfTransaction exampleSdk
                      (transactionsFolder exampleEnv ''target'' balancesPreset balancesNemesis)
                      (nemesisGenerationHashSeed balancesPreset)) [exampleNodeAccount]))"
    by code_simp
  note all = optIn_balances_adjust_residual [OF n m b c d e l,
      of exampleSdk exampleEnv "''target''" "[exampleNodeAccount]"]
  note operation = all [THEN conjunct1]
  note run = all [THEN conjunct2, THEN conjunct2, THEN conjunct2, THEN conjunct2,
      THEN conjunct2, THEN conjunct2, THEN conjunct1]
  note left = all [THEN conjunct2, THEN conjunct2, THEN conjunct2, THEN conjunct2,
      THEN conjunct2, THEN conjunct2, THEN conjunct2]
  have o: "map_sum id fst (optInBalances [exampleOptInMosaic] (Some exampleBalances))
       = Inr [exampleOptInMosaic
                \<lparr>currencyDistributions :=
                   Some [\<lparr>dist_address = ''address-ngl'', amount = Num 45\<rparr>,
                         \<lparr>dist_address = ''address-1'', amount = Num 40\<rparr>,
                         \<lparr>dist_address = ''address-x'', amount = Num 10\<rparr>,
                         \<lparr>dist_address = ''address-y'', amount = Num 5\<rparr>]\<rparr>]"
    unfolding operation by (simp add: s exampleBalances_def balanceEntry_def)
  have g: "\<not> isl (generateNemesisConfig exampleSdk exampleEnv ''target'' balancesPreset
                   [exampleNodeAccount])"
    unfolding run using v by (simp add: t s)
  have p: "fst (projr (generateNemesisConfig exampleSdk exampleEnv ''target'' balancesPreset
                    [exampleNodeAccount]))
       = balancesPreset
           \<lparr>nemesis :=
              Some (balancesNemesis
                      \<lparr>mosaics :=
                         Some [exampleOptInMosaic
                                 \<lparr>currencyDistributions :=
                                    Some [\<lparr>dist_address = ''address-ngl'', amount = Num 45\<rparr>,
                                          \<lparr>dist_address = ''address-1'', amount = Num 40\<rparr>,
                                          \<lparr>dist_address = ''address-x'', amount = Num 10\<rparr>,
                                          \<lparr>dist_address = ''address-y'', amount = Num 5\<rparr>]\<rparr>]\<rparr>)\<rparr>"
    using left g by (simp add: exampleBalances_def balanceEntry_def)
  show ?thesis
    using n m b c d e l o g p by (simp add: s)
qed

text \<open>
  As stated, for any balances, the claim fails: the amounts are doubles. With a
  residual entry of \<open>2^53 + 2\<close>, which is the supply, and three balances of 1, the
  residual amount becomes \<open>2^53 - 1\<close> and the entries still total the supply, but the
  sum that the source computes is rounded to \<open>2^53\<close> and the operation fails.
\<close>

theorem large_amounts_counterexample:
  "currencyDistributions largeAmountMosaic
     = Some [\<lparr>dist_address = ''address-ngl'', amount = Num 9007199254740994\<rparr>]
   \<and> mosaic_supply largeAmountMosaic = Num 9007199254740994
   \<and> isDouble 9007199254740994
   \<and> map snd unitBalances = [Num 1, Num 1, Num 1]
   \<and> subD (Num 9007199254740994) (sumD (map snd unitBalances)) = Num 9007199254740991
   \<and> optInBalances [largeAmountMosaic] (Some unitBalances)
       = Inl (SuppliedBalanceDifferent (Num 9007199254740992) (Num 9007199254740994))
   \<and> generateNemesisConfig exampleSdk exampleEnv ''target'' largeAmountPreset
         [exampleNodeAccount]
       = Inl (SuppliedBalanceDifferent (Num 9007199254740992) (Num 9007199254740994))"
  by code_simp

subsection \<open>Opt-in without a beneficiary\<close>






end
